theory Spec2Isabelle
  imports Main "HOL-Library.AList" "HOL-Library.Sublist"
begin

section \<open>The provisioning script \<^verbatim>\<open>deploy/install.js\<close>\<close>

text \<open>
  The script reads a \<^verbatim>\<open>.env\<close> file, fills the placeholders of a JSON template,
  and merges the \<^verbatim>\<open>mcpServers\<close> of the result into the configuration file of the
  desktop application (the spec's "providers" mapping is the \<^verbatim>\<open>mcpServers\<close> object, the
  "target document" the configuration file, the "parameter source" the \<^verbatim>\<open>.env\<close> file).

  A JavaScript string is modelled as a \<^typ>\<open>string\<close>, one \<^typ>\<open>char\<close> per UTF-16 code
  unit, which covers the texts whose code units are below 256. JSON numbers are modelled
  as integers, which covers the documents whose numbers are integers of magnitude below
  \<open>2^53\<close>. What the Node.js runtime provides (\<^verbatim>\<open>JSON.parse\<close>, \<^verbatim>\<open>JSON.stringify\<close>,
  \<^verbatim>\<open>path.join\<close>, \<^verbatim>\<open>path.dirname\<close>) is a parameter of the model, the record
  \<open>platform\<close>; what the machine provides (\<^verbatim>\<open>os.homedir()\<close>, \<^verbatim>\<open>os.platform()\<close>,
  \<^verbatim>\<open>Date.now()\<close>, the directory of the script) is the record \<open>host\<close>.
\<close>

subsection \<open>Strings\<close>

text \<open>\<^verbatim>\<open>String.prototype.trim\<close> strips white space and line terminators; below 256 these
  are TAB, LF, VT, FF, CR, SP and NBSP.\<close>

definition is_space :: "char \<Rightarrow> bool" where
  "is_space c = (c \<in> set [CHR 0x09, CHR 0x0A, CHR 0x0B, CHR 0x0C, CHR 0x0D, CHR 0x20, CHR 0xA0])"

definition trim :: "string \<Rightarrow> string" where
  "trim s = rev (dropWhile is_space (rev (dropWhile is_space s)))"

text \<open>\<^verbatim>\<open>s.split(sep)\<close> for a separator of one character: never the empty array.\<close>

fun split_on :: "char \<Rightarrow> string \<Rightarrow> string list" where
  "split_on sep [] = [[]]"
| "split_on sep (c # cs) =
     (if c = sep then [] # split_on sep cs
      else (case split_on sep cs of [] \<Rightarrow> [[c]] | p # ps \<Rightarrow> (c # p) # ps))"

text \<open>\<^verbatim>\<open>parts.join(sep)\<close>.\<close>

fun join :: "string \<Rightarrow> string list \<Rightarrow> string" where
  "join sep [] = []"
| "join sep [p] = p"
| "join sep (p # q # ps) = p @ sep @ join sep (q # ps)"

text \<open>A natural number in decimal, as a template literal prints \<^verbatim>\<open>Date.now()\<close> and as
  an array index is named as a property key.\<close>

definition digit_char :: "nat \<Rightarrow> char" where
  "digit_char d =
     (if d = 0 then CHR ''0'' else if d = 1 then CHR ''1'' else if d = 2 then CHR ''2''
      else if d = 3 then CHR ''3'' else if d = 4 then CHR ''4'' else if d = 5 then CHR ''5''
      else if d = 6 then CHR ''6'' else if d = 7 then CHR ''7'' else if d = 8 then CHR ''8''
      else CHR ''9'')"

fun decimal :: "nat \<Rightarrow> string" where
  "decimal n = (if n < 10 then [digit_char n] else decimal (n div 10) @ [digit_char (n mod 10)])"

declare decimal.simps [simp del]

subsection \<open>String.prototype.replace with a global literal pattern\<close>

text \<open>
  The replacement text of \<^verbatim>\<open>replace\<close> is not taken literally: \<^verbatim>\<open>$$\<close> stands for a
  dollar sign, \<^verbatim>\<open>$&\<close> for the matched text, \<^verbatim>\<open>$`\<close> for the text before the match and
  \<^verbatim>\<open>$'\<close> for the text after it. The patterns of the script have no capture group, so
  \<^verbatim>\<open>$1\<close> and the like stay as they are. \<open>expand m passed rest r\<close> is the text that
  replaces the match \<open>m\<close>, found after the text \<open>passed\<close> and before the text \<open>rest\<close>.
\<close>

fun expand :: "string \<Rightarrow> string \<Rightarrow> string \<Rightarrow> string \<Rightarrow> string" where
  "expand m passed rest [] = []"
| "expand m passed rest [c] = [c]"
| "expand m passed rest (c # d # r) =
     (if c = CHR ''$'' \<and> d = CHR ''$'' then CHR ''$'' # expand m passed rest r
      else if c = CHR ''$'' \<and> d = CHR ''&'' then m @ expand m passed rest r
      else if c = CHR ''$'' \<and> d = CHR 0x60 then passed @ expand m passed rest r
      else if c = CHR ''$'' \<and> d = CHR 0x27 then rest @ expand m passed rest r
      else c # expand m passed rest (d # r))"

text \<open>
  \<open>replace_from tok r passed s\<close>: every match of the literal \<open>tok\<close> in \<open>s\<close>, found from left
  to right without overlap, is replaced; \<open>passed\<close> is the text already passed. The matches
  are those of the text the method is called on, and a replacement is not searched again.
\<close>

function replace_from :: "string \<Rightarrow> string \<Rightarrow> string \<Rightarrow> string \<Rightarrow> string" where
  "replace_from tok r passed [] = []"
| "replace_from tok r passed (c # cs) =
     (if tok \<noteq> [] \<and> prefix tok (c # cs)
      then expand tok passed (drop (length tok) (c # cs)) r
           @ replace_from tok r (passed @ tok) (drop (length tok) (c # cs))
      else c # replace_from tok r (passed @ [c]) cs)"
  by pat_completeness auto
termination
  by (relation "measure (\<lambda>(tok, r, passed, s). length s)") (auto simp: neq_Nil_conv)

definition replace_all :: "string \<Rightarrow> string \<Rightarrow> string \<Rightarrow> string" where
  "replace_all tok r s = replace_from tok r [] s"

text \<open>\<^verbatim>\<open>value.replace(/\\/g, '\\\\')\<close>: every backslash is doubled.\<close>

definition escape_backslashes :: "string \<Rightarrow> string" where
  "escape_backslashes v = replace_all [CHR 0x5C] [CHR 0x5C, CHR 0x5C] v"

subsection \<open>The parameter source\<close>

type_synonym env = "string \<rightharpoonup> string"

text \<open>\<^verbatim>\<open>env[key] = value\<close> on an ordinary object: the key \<^verbatim>\<open>__proto__\<close> is the
  setter of \<^verbatim>\<open>Object.prototype\<close>, which ignores a string.\<close>

definition assign :: "env \<Rightarrow> string \<Rightarrow> string \<Rightarrow> env" where
  "assign env k v = (if k = ''__proto__'' then env else env(k \<mapsto> v))"

text \<open>The callback of \<^verbatim>\<open>forEach\<close> in \<^verbatim>\<open>loadEnv\<close>, on one line of the file.\<close>

definition env_line :: "env \<Rightarrow> string \<Rightarrow> env" where
  "env_line env raw =
     (let line = trim raw in
      if line \<noteq> [] \<and> \<not> prefix ''#'' line
      then (case split_on CHR ''='' line of
              [] \<Rightarrow> env
            | key # valueParts \<Rightarrow> assign env (trim key) (trim (join ''='' valueParts)))
      else env)"

definition parse_env :: "string \<Rightarrow> env" where
  "parse_env envContent = foldl env_line Map.empty (split_on CHR 0x0A envContent)"

text \<open>\<^verbatim>\<open>env.KEY || fallback\<close>: the fallback when the key is missing or its value is the
  empty string.\<close>

definition or_default :: "env \<Rightarrow> string \<Rightarrow> string \<Rightarrow> string" where
  "or_default env k fallback =
     (case env k of None \<Rightarrow> fallback | Some v \<Rightarrow> if v = [] then fallback else v)"

subsection \<open>JSON documents\<close>

text \<open>An object is the list of its properties in the order \<^verbatim>\<open>JSON.stringify\<close> and the
  spread syntax enumerate them; a property read is \<^const>\<open>map_of\<close>.\<close>

datatype json =
    JNull
  | JBool bool
  | JNum int
  | JStr string
  | JArr "json list"
  | JObj "(string \<times> json) list"

text \<open>A property key that is an array index (the canonical decimal of a number below
  \<open>2^32 - 1\<close>): objects enumerate these first, in ascending order.\<close>

definition digit_value :: "char \<Rightarrow> nat option" where
  "digit_value c =
     (let code = (of_char c :: nat)
      in if 48 \<le> code \<and> code \<le> 57 then Some (code - 48) else None)"

fun digits_value :: "nat \<Rightarrow> string \<Rightarrow> nat option" where
  "digits_value acc [] = Some acc"
| "digits_value acc (c # cs) =
     (case digit_value c of None \<Rightarrow> None | Some d \<Rightarrow> digits_value (10 * acc + d) cs)"

definition array_index :: "string \<Rightarrow> nat option" where
  "array_index k =
     (if k = [] \<or> (length k > 1 \<and> hd k = CHR ''0'') then None
      else (case digits_value 0 k of
              None \<Rightarrow> None
            | Some n \<Rightarrow> if n < 4294967295 then Some n else None))"

fun insert_index :: "nat \<Rightarrow> string \<Rightarrow> json \<Rightarrow> (string \<times> json) list \<Rightarrow> (string \<times> json) list" where
  "insert_index n k v [] = [(k, v)]"
| "insert_index n k v ((k', v') # kvs) =
     (case array_index k' of
        Some m \<Rightarrow> if m < n then (k', v') # insert_index n k v kvs else (k, v) # (k', v') # kvs
      | None \<Rightarrow> (k, v) # (k', v') # kvs)"

text \<open>\<^verbatim>\<open>CreateDataProperty\<close>: an existing property keeps its place and takes the new
  value; a new one is placed among the array indices, or last.\<close>

definition define_property :: "(string \<times> json) list \<Rightarrow> string \<Rightarrow> json \<Rightarrow> (string \<times> json) list" where
  "define_property kvs k v =
     (if k \<in> fst ` set kvs then AList.update k v kvs
      else (case array_index k of Some n \<Rightarrow> insert_index n k v kvs | None \<Rightarrow> kvs @ [(k, v)]))"

text \<open>The own enumerable properties of a value, as the spread syntax and
  \<^verbatim>\<open>Object.keys\<close> find them: those of an object (each key once), the elements of an
  array and the characters of a string under their indices, none of a number, a boolean
  or \<^verbatim>\<open>null\<close>.\<close>

fun own_entries :: "json \<Rightarrow> (string \<times> json) list" where
  "own_entries (JObj kvs) = AList.clearjunk kvs"
| "own_entries (JArr xs) = zip (map decimal [0..<length xs]) xs"
| "own_entries (JStr s) = zip (map decimal [0..<length s]) (map (\<lambda>c. JStr [c]) s)"
| "own_entries v = []"

fun truthy :: "json \<Rightarrow> bool" where
  "truthy JNull = False"
| "truthy (JBool b) = b"
| "truthy (JNum n) = (n \<noteq> 0)"
| "truthy (JStr s) = (s \<noteq> [])"
| "truthy (JArr xs) = True"
| "truthy (JObj kvs) = True"

text \<open>The errors that the script can meet: one of the file system, with its code, the
  \<^verbatim>\<open>SyntaxError\<close> of \<^verbatim>\<open>JSON.parse\<close>, a \<^verbatim>\<open>TypeError\<close>, and the error that
  \<^verbatim>\<open>getClaudeConfigPath\<close> throws.\<close>

datatype js_error =
    SystemError string
  | SyntaxError
  | TypeError
  | UnsupportedPlatform string

text \<open>\<^verbatim>\<open>err.code\<close>: only the errors of the file system carry one.\<close>

fun err_code :: "js_error \<Rightarrow> string option" where
  "err_code (SystemError c) = Some c"
| "err_code e = None"

text \<open>\<^verbatim>\<open>doc.mcpServers\<close>: a \<^verbatim>\<open>TypeError\<close> on \<^verbatim>\<open>null\<close>, \<^verbatim>\<open>undefined\<close> (here \<open>None\<close>)
  on a value without the property; no prototype defines \<^verbatim>\<open>mcpServers\<close>.\<close>

fun get_mcpServers :: "json \<Rightarrow> js_error + json option" where
  "get_mcpServers JNull = Inl TypeError"
| "get_mcpServers (JObj kvs) = Inr (map_of kvs ''mcpServers'')"
| "get_mcpServers v = Inr None"

text \<open>\<^verbatim>\<open>Object.keys(servers || {})\<close>.\<close>

definition keys_or_empty :: "json option \<Rightarrow> string list" where
  "keys_or_empty servers =
     (case servers of
        None \<Rightarrow> []
      | Some x \<Rightarrow> if truthy x then map fst (own_entries x) else [])"

text \<open>\<^verbatim>\<open>{...obj, ...src}\<close>, one spread at a time: \<^verbatim>\<open>undefined\<close> contributes nothing.\<close>

definition spread :: "json option \<Rightarrow> (string \<times> json) list \<Rightarrow> (string \<times> json) list" where
  "spread src obj =
     (case src of
        None \<Rightarrow> obj
      | Some x \<Rightarrow> fold (\<lambda>(k, v) acc. define_property acc k v) (own_entries x) obj)"

text \<open>\<^verbatim>\<open>{ ...claudeConfig.mcpServers, ...generatedConfig.mcpServers }\<close>.\<close>

definition merge_servers :: "json option \<Rightarrow> json option \<Rightarrow> json" where
  "merge_servers existing generated = JObj (spread generated (spread existing []))"

text \<open>\<^verbatim>\<open>claudeConfig.mcpServers = merged\<close> in a module (strict mode): a property of an
  object; a \<^verbatim>\<open>TypeError\<close> on a primitive; on an array a property that is not an element,
  which \<^verbatim>\<open>JSON.stringify\<close> leaves out, so the array is what gets serialised.\<close>

fun set_mcpServers :: "json \<Rightarrow> json \<Rightarrow> js_error + json" where
  "set_mcpServers (JObj kvs) merged = Inr (JObj (AList.update ''mcpServers'' merged kvs))"
| "set_mcpServers (JArr xs) merged = Inr (JArr xs)"
| "set_mcpServers v merged = Inl TypeError"

subsection \<open>The runtime, the machine and the file system\<close>

record platform =
  JSON_parse :: "string \<Rightarrow> json option"
  JSON_stringify :: "json \<Rightarrow> string"
  path_join :: "string \<Rightarrow> string \<Rightarrow> string"
  path_dirname :: "string \<Rightarrow> string"

text \<open>\<open>JSON_parse\<close> is \<^verbatim>\<open>JSON.parse(text)\<close>, \<open>None\<close> for its \<^verbatim>\<open>SyntaxError\<close>;
  \<open>JSON_stringify\<close> is \<^verbatim>\<open>JSON.stringify(value, null, 2)\<close>.\<close>

text \<open>The machine: the directory above the one of the script, \<^verbatim>\<open>os.homedir()\<close>,
  \<^verbatim>\<open>os.platform()\<close>, \<^verbatim>\<open>process.env.APPDATA\<close> and what \<^verbatim>\<open>Date.now()\<close> answers.\<close>

record host =
  rootDir :: string
  homedir :: string
  os_platform :: string
  APPDATA :: "string option"
  now :: nat

text \<open>
  The file system: the text of every file that can be read, and for the paths where an
  operation fails the code of its error. A path that has no file and no fault fails a
  read with \<^verbatim>\<open>ENOENT\<close>; a write that fails leaves every file as it was.
\<close>

record fsys =
  files :: "string \<rightharpoonup> string"
  read_fault :: "string \<rightharpoonup> string"
  write_fault :: "string \<rightharpoonup> string"
  mkdir_fault :: "string \<rightharpoonup> string"

definition readFile :: "fsys \<Rightarrow> string \<Rightarrow> js_error + string" where
  "readFile fs p =
     (case read_fault fs p of
        Some c \<Rightarrow> Inl (SystemError c)
      | None \<Rightarrow> (case files fs p of None \<Rightarrow> Inl (SystemError ''ENOENT'') | Some t \<Rightarrow> Inr t))"

definition writeFile :: "fsys \<Rightarrow> string \<Rightarrow> string \<Rightarrow> js_error + fsys" where
  "writeFile fs p t =
     (case write_fault fs p of
        Some c \<Rightarrow> Inl (SystemError c)
      | None \<Rightarrow> Inr (fs\<lparr>files := (files fs)(p \<mapsto> t)\<rparr>))"

text \<open>\<^verbatim>\<open>fs.mkdir(dir, { recursive: true })\<close>: directories are not part of the state, a
  call that succeeds changes nothing that the script reads.\<close>

definition mkdir :: "fsys \<Rightarrow> string \<Rightarrow> js_error + unit" where
  "mkdir fs d = (case mkdir_fault fs d of Some c \<Rightarrow> Inl (SystemError c) | None \<Rightarrow> Inr ())"

text \<open>A run: the file system, the files written so far (oldest first) and the lines
  printed by \<^verbatim>\<open>info\<close>, \<^verbatim>\<open>success\<close>, \<^verbatim>\<open>warning\<close> and \<^verbatim>\<open>error\<close> (the banners printed
  with \<^verbatim>\<open>console.log\<close> are left out; \<open>FAILED e\<close> is the line
  \<^verbatim>\<open>Installation failed: <message of e>\<close>).\<close>

datatype log_line = INFO string | SUCCESS string | WARNING string | FAILED js_error

record run =
  disk :: fsys
  written :: "(string \<times> string) list"
  console :: "log_line list"

record outcome =
  exit_code :: nat
  final :: run

definition say :: "log_line \<Rightarrow> run \<Rightarrow> run" where
  "say l r = r\<lparr>console := console r @ [l]\<rparr>"

definition write_out :: "string \<Rightarrow> string \<Rightarrow> run \<Rightarrow> js_error + run" where
  "write_out p t r =
     (case writeFile (disk r) p t of
        Inl e \<Rightarrow> Inl e
      | Inr fs \<Rightarrow> Inr (r\<lparr>disk := fs, written := written r @ [(p, t)]\<rparr>))"

text \<open>The \<^verbatim>\<open>catch\<close> of \<^verbatim>\<open>install\<close>: the error is printed and the process exits with 1.\<close>

definition failed :: "js_error \<Rightarrow> run \<Rightarrow> outcome" where
  "failed e r = \<lparr>exit_code = 1, final = say (FAILED e) r\<rparr>"

subsection \<open>loadEnv\<close>

definition loadEnv :: "platform \<Rightarrow> host \<Rightarrow> run \<Rightarrow> (js_error + env) \<times> run" where
  "loadEnv P h r =
     (case readFile (disk r) (path_join P (rootDir h) ''.env'') of
        Inr envContent \<Rightarrow> (Inr (parse_env envContent), r)
      | Inl err \<Rightarrow>
          if err_code err = Some ''ENOENT''
          then (Inr Map.empty, say (WARNING ''.env file not found, using defaults'') r)
          else (Inl err, r))"

subsection \<open>getClaudeConfigPath\<close>

text \<open>On Windows \<^verbatim>\<open>path.join\<close> throws a \<^verbatim>\<open>TypeError\<close> when \<^verbatim>\<open>APPDATA\<close> is not set.\<close>

definition getClaudeConfigPath :: "platform \<Rightarrow> host \<Rightarrow> js_error + string" where
  "getClaudeConfigPath P h =
     (if os_platform h = ''darwin''
      then Inr (path_join P (homedir h)
                  ''Library/Application Support/Claude/claude_desktop_config.json'')
      else if os_platform h = ''linux''
      then Inr (path_join P (homedir h) ''.config/Claude/claude_desktop_config.json'')
      else if os_platform h = ''win32''
      then (case APPDATA h of
              None \<Rightarrow> Inl TypeError
            | Some a \<Rightarrow> Inr (path_join P a ''Claude/claude_desktop_config.json''))
      else Inl (UnsupportedPlatform (os_platform h)))"

subsection \<open>install, step 2: the parameters\<close>

record params =
  installDir :: string
  orchestratorPath :: string
  hubspotPath :: string
  sharepointPath :: string
  asanaPath :: string
  hubspotUrl :: string
  sharepointUrl :: string
  asanaUrl :: string
  debug :: string

definition resolve :: "platform \<Rightarrow> host \<Rightarrow> env \<Rightarrow> params" where
  "resolve P h env =
     (let dir = or_default env ''INSTALL_DIR'' (homedir h) in
      \<lparr>installDir = dir,
       orchestratorPath =
         path_join P (rootDir h) ''node_modules/@magicturtle/claude-orchestrator'',
       hubspotPath =
         or_default env ''HUBSPOT_PROJECT_PATH'' (path_join P dir ''hubspot-mcp-railway''),
       sharepointPath =
         or_default env ''SHAREPOINT_PROJECT_PATH'' (path_join P dir ''sharepoint-mcp-railway''),
       asanaPath =
         or_default env ''ASANA_PROJECT_PATH'' (path_join P dir ''asana-mcp-railway''),
       hubspotUrl =
         or_default env ''HUBSPOT_MCP_URL''
           ''https://hubspot-mcp-railway-production-386b.up.railway.app/mcp'',
       sharepointUrl =
         or_default env ''SHAREPOINT_MCP_URL''
           ''https://sharepoint-mcp-railway-production.up.railway.app/mcp'',
       asanaUrl =
         or_default env ''ASANA_MCP_URL''
           ''https://asana-mcp-railway-production.up.railway.app/sse'',
       debug = or_default env ''DEBUG'' ''false''\<rparr>)"

subsection \<open>install, step 3: the template\<close>

text \<open>The chain of \<^verbatim>\<open>replace\<close> calls, first call innermost.\<close>

definition render :: "params \<Rightarrow> string \<Rightarrow> string" where
  "render p template =
     replace_all ''{{DEBUG}}'' (debug p)
      (replace_all ''{{ASANA_MCP_URL}}'' (asanaUrl p)
       (replace_all ''{{SHAREPOINT_MCP_URL}}'' (sharepointUrl p)
        (replace_all ''{{HUBSPOT_MCP_URL}}'' (hubspotUrl p)
         (replace_all ''{{ASANA_PROJECT_PATH}}'' (escape_backslashes (asanaPath p))
          (replace_all ''{{SHAREPOINT_PROJECT_PATH}}'' (escape_backslashes (sharepointPath p))
           (replace_all ''{{HUBSPOT_PROJECT_PATH}}'' (escape_backslashes (hubspotPath p))
            (replace_all ''{{ORCHESTRATOR_PATH}}'' (escape_backslashes (orchestratorPath p))
              template)))))))"

subsection \<open>install, step 4: the configuration file\<close>

text \<open>\<^verbatim>\<open>let claudeConfig = { mcpServers: {} }\<close>, kept when the file does not exist.\<close>

definition empty_config :: json where
  "empty_config = JObj [(''mcpServers'', JObj [])]"

text \<open>The \<^verbatim>\<open>try\<close> around reading the existing file: only \<^verbatim>\<open>ENOENT\<close> is swallowed.\<close>

definition read_existing :: "platform \<Rightarrow> fsys \<Rightarrow> string \<Rightarrow> js_error + json" where
  "read_existing P fs claudeConfigPath =
     (case readFile fs claudeConfigPath of
        Inl err \<Rightarrow> if err_code err \<noteq> Some ''ENOENT'' then Inl err else Inr empty_config
      | Inr existing \<Rightarrow>
          (case JSON_parse P existing of None \<Rightarrow> Inl SyntaxError | Some doc \<Rightarrow> Inr doc))"

definition backupPath :: "host \<Rightarrow> string \<Rightarrow> string" where
  "backupPath h claudeConfigPath = claudeConfigPath @ ''.backup.'' @ decimal (now h)"

text \<open>The backup: written when \<^verbatim>\<open>mcpServers\<close> has a key, and a failure of the write
  is thrown like any other.\<close>

definition backup :: "platform \<Rightarrow> host \<Rightarrow> string \<Rightarrow> json \<Rightarrow> run \<Rightarrow> js_error + run" where
  "backup P h claudeConfigPath claudeConfig r =
     (case get_mcpServers claudeConfig of
        Inl e \<Rightarrow> Inl e
      | Inr servers \<Rightarrow>
          if length (keys_or_empty servers) > 0
          then (case write_out (backupPath h claudeConfigPath) (JSON_stringify P claudeConfig) r of
                  Inl e \<Rightarrow> Inl e
                | Inr r' \<Rightarrow>
                    Inr (say (INFO (''Backed up existing config to: ''
                                     @ backupPath h claudeConfigPath)) r'))
          else Inr r)"

text \<open>The merge: both property reads, then the assignment.\<close>

definition merge_config :: "json \<Rightarrow> json \<Rightarrow> js_error + json" where
  "merge_config claudeConfig generatedConfig =
     (case get_mcpServers claudeConfig of
        Inl e \<Rightarrow> Inl e
      | Inr existing \<Rightarrow>
          (case get_mcpServers generatedConfig of
             Inl e \<Rightarrow> Inl e
           | Inr generated \<Rightarrow> set_mcpServers claudeConfig (merge_servers existing generated)))"

definition summary :: "run \<Rightarrow> run" where
  "summary r = say (INFO ''Configuration:'') (say (INFO ''Next steps:'') r)"

definition update_config :: "platform \<Rightarrow> host \<Rightarrow> json \<Rightarrow> run \<Rightarrow> outcome" where
  "update_config P h generatedConfig r =
     (case getClaudeConfigPath P h of
        Inl e \<Rightarrow> failed e r
      | Inr claudeConfigPath \<Rightarrow>
          (let r1 = say (INFO (''Claude Desktop config: '' @ claudeConfigPath)) r in
           case mkdir (disk r1) (path_dirname P claudeConfigPath) of
             Inl e \<Rightarrow> failed e r1
           | Inr made \<Rightarrow>
               (case read_existing P (disk r1) claudeConfigPath of
                  Inl e \<Rightarrow> failed e r1
                | Inr claudeConfig \<Rightarrow>
                    (case backup P h claudeConfigPath claudeConfig r1 of
                       Inl e \<Rightarrow> failed e r1
                     | Inr r2 \<Rightarrow>
                         (case merge_config claudeConfig generatedConfig of
                            Inl e \<Rightarrow> failed e r2
                          | Inr merged \<Rightarrow>
                              (case write_out claudeConfigPath (JSON_stringify P merged) r2 of
                                 Inl e \<Rightarrow> failed e r2
                               | Inr r3 \<Rightarrow>
                                   \<lparr>exit_code = 0,
                                    final = summary
                                      (say (SUCCESS ''Claude Desktop configured'') r3)\<rparr>))))))"

subsection \<open>install\<close>

text \<open>Steps 2 and 3, for the parameters \<open>env\<close> that \<^verbatim>\<open>loadEnv\<close> returned: the generated
  configuration, or the error thrown.\<close>

definition generate :: "platform \<Rightarrow> host \<Rightarrow> env \<Rightarrow> run \<Rightarrow> (js_error + json) \<times> run" where
  "generate P h env r =
     (let p = resolve P h env;
          r1 = say (INFO (''  Orchestrator: '' @ orchestratorPath p))
                (say (INFO (''  Install directory: '' @ installDir p))
                  (say (SUCCESS ''Configuration loaded'') r));
          r2 = say (INFO ''Generating Claude Desktop configuration...'') r1
      in case readFile (disk r2)
                (path_join P (rootDir h) ''config/claudeDesktopConfig.template.json'') of
           Inl e \<Rightarrow> (Inl e, r2)
         | Inr template \<Rightarrow>
             (case JSON_parse P (render p template) of
                None \<Rightarrow> (Inl SyntaxError, r2)
              | Some generatedConfig \<Rightarrow> (Inr generatedConfig, r2)))"

text \<open>Steps 1 to 3 of a run on the file system \<open>fs\<close>.\<close>

definition generated_config :: "platform \<Rightarrow> host \<Rightarrow> fsys \<Rightarrow> (js_error + json) \<times> run" where
  "generated_config P h fs =
     (let r = say (INFO ''Loading configuration...'')
                \<lparr>disk = fs, written = [], console = []\<rparr>
      in case loadEnv P h r of
           (Inl e, r') \<Rightarrow> (Inl e, r')
         | (Inr env, r') \<Rightarrow> generate P h env r')"

text \<open>The whole of \<^verbatim>\<open>install\<close>: an error of any step reaches the one \<^verbatim>\<open>catch\<close>.\<close>

definition install :: "platform \<Rightarrow> host \<Rightarrow> fsys \<Rightarrow> outcome" where
  "install P h fs =
     (case generated_config P h fs of
        (Inl e, r) \<Rightarrow> failed e r
      | (Inr generatedConfig, r) \<Rightarrow> update_config P h generatedConfig r)"

subsection \<open>An instance of the platform: Node.js on a POSIX machine\<close>

text \<open>
  The examples below run the script on this instance. \<open>json_stringify\<close> is
  \<^verbatim>\<open>JSON.stringify(value, null, 2)\<close> on the values of \<^typ>\<open>json\<close>. \<open>json_parse\<close> is
  \<^verbatim>\<open>JSON.parse\<close> on the JSON texts whose numbers are integer literals of magnitude at
  most \<open>2^53\<close> and whose escapes of a code unit by its hexadecimal number are below
  0100; a JSON text outside this fragment is outside the instance (it answers \<open>None\<close>
  there), and no example uses one. \<open>posix_join\<close> and \<open>posix_dirname\<close> are
  \<^verbatim>\<open>path.join\<close> and \<^verbatim>\<open>path.dirname\<close> on normalised paths: an absolute directory that
  does not end in a slash, joined with a relative path that has no \<^verbatim>\<open>.\<close> or \<^verbatim>\<open>..\<close>
  segment.
\<close>

definition hex_char :: "nat \<Rightarrow> char" where
  "hex_char d =
     (if d < 10 then digit_char d else if d = 10 then CHR ''a'' else if d = 11 then CHR ''b''
      else if d = 12 then CHR ''c'' else if d = 13 then CHR ''d''
      else if d = 14 then CHR ''e'' else CHR ''f'')"

text \<open>\<^verbatim>\<open>QuoteJSONString\<close>.\<close>

definition quote_char :: "char \<Rightarrow> string" where
  "quote_char c =
     (if c = CHR 0x08 then [CHR 0x5C, CHR ''b'']
      else if c = CHR 0x09 then [CHR 0x5C, CHR ''t'']
      else if c = CHR 0x0A then [CHR 0x5C, CHR ''n'']
      else if c = CHR 0x0C then [CHR 0x5C, CHR ''f'']
      else if c = CHR 0x0D then [CHR 0x5C, CHR ''r'']
      else if c = CHR 0x22 then [CHR 0x5C, CHR 0x22]
      else if c = CHR 0x5C then [CHR 0x5C, CHR 0x5C]
      else if (of_char c :: nat) < 32
      then [CHR 0x5C, CHR ''u'', CHR ''0'', CHR ''0'',
            hex_char (of_char c div 16), hex_char (of_char c mod 16)]
      else [c])"

definition quote :: "string \<Rightarrow> string" where
  "quote s = [CHR 0x22] @ concat (map quote_char s) @ [CHR 0x22]"

definition number_text :: "int \<Rightarrow> string" where
  "number_text n = (if n < 0 then CHR ''-'' # decimal (nat (- n)) else decimal (nat n))"

text \<open>\<^verbatim>\<open>SerializeJSONProperty\<close> with the gap of two spaces; \<open>ind\<close> is the current
  indentation.\<close>

fun serialize :: "string \<Rightarrow> json \<Rightarrow> string"
  and serialize_elements :: "string \<Rightarrow> json list \<Rightarrow> string list"
  and serialize_members :: "string \<Rightarrow> (string \<times> json) list \<Rightarrow> string list" where
  "serialize ind JNull = ''null''"
| "serialize ind (JBool b) = (if b then ''true'' else ''false'')"
| "serialize ind (JNum n) = number_text n"
| "serialize ind (JStr s) = quote s"
| "serialize ind (JArr xs) =
     (if xs = [] then ''[]''
      else ''['' @ [CHR 0x0A] @ ind @ ''  ''
           @ join ('','' @ [CHR 0x0A] @ ind @ ''  '') (serialize_elements (ind @ ''  '') xs)
           @ [CHR 0x0A] @ ind @ '']'')"
| "serialize ind (JObj kvs) =
     (if kvs = [] then ''{}''
      else ''{'' @ [CHR 0x0A] @ ind @ ''  ''
           @ join ('','' @ [CHR 0x0A] @ ind @ ''  '') (serialize_members (ind @ ''  '') kvs)
           @ [CHR 0x0A] @ ind @ ''}'')"
| "serialize_elements ind [] = []"
| "serialize_elements ind (x # xs) = serialize ind x # serialize_elements ind xs"
| "serialize_members ind [] = []"
| "serialize_members ind ((k, v) # kvs) =
     (quote k @ '': '' @ serialize ind v) # serialize_members ind kvs"

definition json_stringify :: "json \<Rightarrow> string" where
  "json_stringify v = serialize [] v"

text \<open>The tokens of a JSON text, read one character at a time.\<close>

datatype token =
    TLBrace | TRBrace | TLBracket | TRBracket | TColon | TComma
  | TString string | TNumber int | TTrue | TFalse | TNull

datatype lex_mode =
    Between
  | InString string
  | InEscape string
  | InUnicode string nat nat
  | InMinus
  | InZero
  | InDigits bool nat
  | InWord string token

definition hex_value :: "char \<Rightarrow> nat option" where
  "hex_value c =
     (case digit_value c of
        Some d \<Rightarrow> Some d
      | None \<Rightarrow>
          if c = CHR ''a'' \<or> c = CHR ''A'' then Some 10
          else if c = CHR ''b'' \<or> c = CHR ''B'' then Some 11
          else if c = CHR ''c'' \<or> c = CHR ''C'' then Some 12
          else if c = CHR ''d'' \<or> c = CHR ''D'' then Some 13
          else if c = CHR ''e'' \<or> c = CHR ''E'' then Some 14
          else if c = CHR ''f'' \<or> c = CHR ''F'' then Some 15
          else None)"

definition number_token :: "bool \<Rightarrow> nat \<Rightarrow> token option" where
  "number_token negative n =
     (if n \<le> 9007199254740992 then Some (TNumber (if negative then - int n else int n))
      else None)"

definition lex_start :: "token list \<Rightarrow> char \<Rightarrow> (lex_mode \<times> token list) option" where
  "lex_start toks c =
     (if c = CHR 0x20 \<or> c = CHR 0x09 \<or> c = CHR 0x0A \<or> c = CHR 0x0D then Some (Between, toks)
      else if c = CHR ''{'' then Some (Between, toks @ [TLBrace])
      else if c = CHR ''}'' then Some (Between, toks @ [TRBrace])
      else if c = CHR ''['' then Some (Between, toks @ [TLBracket])
      else if c = CHR '']'' then Some (Between, toks @ [TRBracket])
      else if c = CHR '':'' then Some (Between, toks @ [TColon])
      else if c = CHR '','' then Some (Between, toks @ [TComma])
      else if c = CHR 0x22 then Some (InString [], toks)
      else if c = CHR ''-'' then Some (InMinus, toks)
      else if c = CHR ''0'' then Some (InZero, toks)
      else if c = CHR ''t'' then Some (InWord ''rue'' TTrue, toks)
      else if c = CHR ''f'' then Some (InWord ''alse'' TFalse, toks)
      else if c = CHR ''n'' then Some (InWord ''ull'' TNull, toks)
      else (case digit_value c of Some d \<Rightarrow> Some (InDigits False d, toks) | None \<Rightarrow> None))"

definition number_end :: "char \<Rightarrow> bool" where
  "number_end c = (digit_value c = None \<and> c \<noteq> CHR ''.'' \<and> c \<noteq> CHR ''e'' \<and> c \<noteq> CHR ''E'')"

fun lex_step :: "lex_mode \<times> token list \<Rightarrow> char \<Rightarrow> (lex_mode \<times> token list) option" where
  "lex_step (Between, toks) c = lex_start toks c"
| "lex_step (InString acc, toks) c =
     (if c = CHR 0x22 then Some (Between, toks @ [TString acc])
      else if c = CHR 0x5C then Some (InEscape acc, toks)
      else if (of_char c :: nat) < 32 then None
      else Some (InString (acc @ [c]), toks))"
| "lex_step (InEscape acc, toks) c =
     (if c = CHR 0x22 \<or> c = CHR 0x5C \<or> c = CHR ''/'' then Some (InString (acc @ [c]), toks)
      else if c = CHR ''b'' then Some (InString (acc @ [CHR 0x08]), toks)
      else if c = CHR ''f'' then Some (InString (acc @ [CHR 0x0C]), toks)
      else if c = CHR ''n'' then Some (InString (acc @ [CHR 0x0A]), toks)
      else if c = CHR ''r'' then Some (InString (acc @ [CHR 0x0D]), toks)
      else if c = CHR ''t'' then Some (InString (acc @ [CHR 0x09]), toks)
      else if c = CHR ''u'' then Some (InUnicode acc 0 0, toks)
      else None)"
| "lex_step (InUnicode acc k v, toks) c =
     (case hex_value c of
        None \<Rightarrow> None
      | Some d \<Rightarrow>
          if k < 3 then Some (InUnicode acc (Suc k) (16 * v + d), toks)
          else if 16 * v + d < 256 then Some (InString (acc @ [char_of (16 * v + d)]), toks)
          else None)"
| "lex_step (InMinus, toks) c =
     (case digit_value c of
        None \<Rightarrow> None
      | Some d \<Rightarrow> Some (InDigits True d, toks))"
| "lex_step (InZero, toks) c =
     (if number_end c then lex_start (toks @ [TNumber 0]) c else None)"
| "lex_step (InDigits negative n, toks) c =
     (case digit_value c of
        Some d \<Rightarrow> if n = 0 then None else Some (InDigits negative (10 * n + d), toks)
      | None \<Rightarrow>
          if number_end c
          then (case number_token negative n of
                  None \<Rightarrow> None
                | Some t \<Rightarrow> lex_start (toks @ [t]) c)
          else None)"
| "lex_step (InWord expected t, toks) c =
     (case expected of
        [] \<Rightarrow> None
      | x # xs \<Rightarrow>
          if c \<noteq> x then None
          else if xs = [] then Some (Between, toks @ [t])
          else Some (InWord xs t, toks))"

fun run_steps :: "('s \<Rightarrow> 'a \<Rightarrow> 's option) \<Rightarrow> 's \<Rightarrow> 'a list \<Rightarrow> 's option" where
  "run_steps f s [] = Some s"
| "run_steps f s (x # xs) = (case f s x of None \<Rightarrow> None | Some s' \<Rightarrow> run_steps f s' xs)"

fun lex_end :: "lex_mode \<times> token list \<Rightarrow> token list option" where
  "lex_end (Between, toks) = Some toks"
| "lex_end (InZero, toks) = Some (toks @ [TNumber 0])"
| "lex_end (InDigits negative n, toks) =
     (case number_token negative n of None \<Rightarrow> None | Some t \<Rightarrow> Some (toks @ [t]))"
| "lex_end (m, toks) = None"

definition lex :: "string \<Rightarrow> token list option" where
  "lex s = (case run_steps lex_step (Between, []) s of None \<Rightarrow> None | Some st \<Rightarrow> lex_end st)"

text \<open>The grammar, as a machine with a stack of the arrays and objects that are open;
  a repeated key of an object keeps its first place and takes the last value.\<close>

datatype frame = InArray "json list" | InObject "(string \<times> json) list" string

datatype expect = XValue | XValueOrClose | XKeyOrClose | XKey | XColon | XCommaOrClose | XDone json

fun deliver :: "json \<Rightarrow> frame list \<Rightarrow> frame list \<times> expect" where
  "deliver v [] = ([], XDone v)"
| "deliver v (InArray xs # st) = (InArray (xs @ [v]) # st, XCommaOrClose)"
| "deliver v (InObject kvs k # st) = (InObject (define_property kvs k v) k # st, XCommaOrClose)"

fun close_array :: "frame list \<Rightarrow> (frame list \<times> expect) option" where
  "close_array (InArray xs # st) = Some (deliver (JArr xs) st)"
| "close_array st = None"

fun close_object :: "frame list \<Rightarrow> (frame list \<times> expect) option" where
  "close_object (InObject kvs k # st) = Some (deliver (JObj kvs) st)"
| "close_object st = None"

fun key_step :: "frame list \<Rightarrow> token \<Rightarrow> (frame list \<times> expect) option" where
  "key_step (InObject kvs k # st) (TString k') = Some (InObject kvs k' # st, XColon)"
| "key_step st t = None"

fun value_step :: "frame list \<Rightarrow> token \<Rightarrow> (frame list \<times> expect) option" where
  "value_step st TLBrace = Some (InObject [] [] # st, XKeyOrClose)"
| "value_step st TLBracket = Some (InArray [] # st, XValueOrClose)"
| "value_step st (TString s) = Some (deliver (JStr s) st)"
| "value_step st (TNumber n) = Some (deliver (JNum n) st)"
| "value_step st TTrue = Some (deliver (JBool True) st)"
| "value_step st TFalse = Some (deliver (JBool False) st)"
| "value_step st TNull = Some (deliver JNull st)"
| "value_step st t = None"

fun comma_step :: "frame list \<Rightarrow> (frame list \<times> expect) option" where
  "comma_step (InArray xs # st) = Some (InArray xs # st, XValue)"
| "comma_step (InObject kvs k # st) = Some (InObject kvs k # st, XKey)"
| "comma_step [] = None"

fun parse_step :: "frame list \<times> expect \<Rightarrow> token \<Rightarrow> (frame list \<times> expect) option" where
  "parse_step (st, XDone v) t = None"
| "parse_step (st, XColon) t = (if t = TColon then Some (st, XValue) else None)"
| "parse_step (st, XKey) t = key_step st t"
| "parse_step (st, XKeyOrClose) t = (if t = TRBrace then close_object st else key_step st t)"
| "parse_step (st, XCommaOrClose) t =
     (if t = TComma then comma_step st
      else if t = TRBracket then close_array st
      else if t = TRBrace then close_object st
      else None)"
| "parse_step (st, XValue) t = value_step st t"
| "parse_step (st, XValueOrClose) t = (if t = TRBracket then close_array st else value_step st t)"

definition json_parse :: "string \<Rightarrow> json option" where
  "json_parse s =
     (case lex s of
        None \<Rightarrow> None
      | Some toks \<Rightarrow>
          (case run_steps parse_step ([], XValue) toks of
             Some ([], XDone v) \<Rightarrow> Some v
           | _ \<Rightarrow> None))"

definition posix_join :: "string \<Rightarrow> string \<Rightarrow> string" where
  "posix_join dir rel = dir @ ''/'' @ rel"

definition posix_dirname :: "string \<Rightarrow> string" where
  "posix_dirname p =
     (let d = rev (drop 1 (dropWhile (\<lambda>c. c \<noteq> CHR ''/'') (rev p)))
      in if d = [] then ''/'' else d)"

definition node_posix :: platform where
  "node_posix =
     \<lparr>JSON_parse = json_parse, JSON_stringify = json_stringify,
      path_join = posix_join, path_dirname = posix_dirname\<rparr>"

subsection \<open>Vocabulary of the properties\<close>

text \<open>The providers of a document: the entries of its \<^verbatim>\<open>mcpServers\<close>, none when it has
  no such property.\<close>

definition providers :: "json \<Rightarrow> string \<rightharpoonup> json" where
  "providers doc =
     (case get_mcpServers doc of
        Inr (Some servers) \<Rightarrow> map_of (own_entries servers)
      | _ \<Rightarrow> Map.empty)"

text \<open>The top-level entries of a document.\<close>

definition entries :: "json \<Rightarrow> string \<rightharpoonup> json" where
  "entries doc = map_of (own_entries doc)"

text \<open>The keys of the parameter source that \<^verbatim>\<open>install\<close> reads.\<close>

definition param_keys :: "string list" where
  "param_keys =
     [''INSTALL_DIR'', ''HUBSPOT_PROJECT_PATH'', ''SHAREPOINT_PROJECT_PATH'',
      ''ASANA_PROJECT_PATH'', ''HUBSPOT_MCP_URL'', ''SHAREPOINT_MCP_URL'', ''ASANA_MCP_URL'',
      ''DEBUG'']"

text \<open>The placeholders that \<^verbatim>\<open>install\<close> replaces.\<close>

definition placeholders :: "string list" where
  "placeholders =
     [''{{ORCHESTRATOR_PATH}}'', ''{{HUBSPOT_PROJECT_PATH}}'', ''{{SHAREPOINT_PROJECT_PATH}}'',
      ''{{ASANA_PROJECT_PATH}}'', ''{{HUBSPOT_MCP_URL}}'', ''{{SHAREPOINT_MCP_URL}}'',
      ''{{ASANA_MCP_URL}}'', ''{{DEBUG}}'']"

text \<open>\<open>occurs tok s\<close>: the text \<open>tok\<close> stands somewhere in \<open>s\<close>.\<close>

fun occurs :: "string \<Rightarrow> string \<Rightarrow> bool" where
  "occurs tok [] = (tok = [])"
| "occurs tok (c # cs) = (prefix tok (c # cs) \<or> occurs tok cs)"

text \<open>A template is well formed when every two opening braces in a row begin one of the
  placeholders; a parameter value is plain when it has no opening brace and no dollar
  sign (which the replacement text of \<^verbatim>\<open>replace\<close> would interpret).\<close>

fun well_formed :: "string \<Rightarrow> bool" where
  "well_formed [] = True"
| "well_formed (c # cs) =
     ((prefix ''{{'' (c # cs) \<longrightarrow> list_ex (\<lambda>tok. prefix tok (c # cs)) placeholders)
      \<and> well_formed cs)"

definition plain :: "string \<Rightarrow> bool" where
  "plain v = (CHR ''{'' \<notin> set v \<and> CHR ''$'' \<notin> set v)"

text \<open>The placeholder of a name, and the names without braces.\<close>

definition hole :: "string \<Rightarrow> string" where
  "hole name = ''{{'' @ name @ ''}}''"

definition brace_free :: "string \<Rightarrow> bool" where
  "brace_free name = (CHR ''{'' \<notin> set name \<and> CHR ''}'' \<notin> set name)"

subsection \<open>Examples\<close>

text \<open>A Linux machine, and documents of the configuration file and of the template.\<close>

definition linux_host :: host where
  "linux_host =
     \<lparr>rootDir = ''/r'', homedir = ''/h'', os_platform = ''linux'', APPDATA = None,
      now = 1700000000000\<rparr>"

definition existing_doc :: json where
  "existing_doc =
     JObj [(''theme'', JStr ''dark''),
           (''mcpServers'',
            JObj [(''x'', JObj [(''command'', JStr ''old''), (''args'', JArr [])]),
                  (''foo'', JObj [(''command'', JStr ''a'')])])]"

definition generated_doc :: json where
  "generated_doc =
     JObj [(''mcpServers'',
            JObj [(''x'', JObj [(''command'', JStr ''new'')]),
                  (''bar'', JObj [(''command'', JStr ''b'')])])]"

definition merged_doc :: json where
  "merged_doc =
     JObj [(''theme'', JStr ''dark''),
           (''mcpServers'',
            JObj [(''x'', JObj [(''command'', JStr ''new'')]),
                  (''foo'', JObj [(''command'', JStr ''a'')]),
                  (''bar'', JObj [(''command'', JStr ''b'')])])]"

definition template_path :: string where
  "template_path = ''/r/config/claudeDesktopConfig.template.json''"

definition config_path :: string where
  "config_path = ''/h/.config/Claude/claude_desktop_config.json''"

definition backup_path :: string where
  "backup_path = ''/h/.config/Claude/claude_desktop_config.json.backup.1700000000000''"

definition template_text :: string where
  \<open>template_text = ''{"mcpServers":{"bar":{"command":"{{DEBUG}}"}}}''\<close>

definition target_text :: string where
  \<open>target_text = ''{"mcpServers":{"foo":{"command":"a"}}}''\<close>

definition target_doc :: json where
  "target_doc = JObj [(''mcpServers'', JObj [(''foo'', JObj [(''command'', JStr ''a'')])])]"

definition rendered_doc :: json where
  "rendered_doc =
     JObj [(''mcpServers'', JObj [(''bar'', JObj [(''command'', JStr ''false'')])])]"

text \<open>A file system with the template and, when \<open>target\<close> is given, the configuration
  file; there is no \<^verbatim>\<open>.env\<close> file and no operation fails.\<close>

definition example_disk :: "string \<Rightarrow> string option \<Rightarrow> fsys" where
  "example_disk template target =
     \<lparr>files = (\<lambda>p. if p = template_path then Some template
                     else if p = config_path then target else None),
      read_fault = Map.empty, write_fault = Map.empty, mkdir_fault = Map.empty\<rparr>"

text \<open>The same with a backup file that cannot be written, with a \<^verbatim>\<open>.env\<close> file that
  cannot be read, and with a configuration file that has an entry of its own.\<close>

definition faulty_disk :: fsys where
  "faulty_disk =
     (example_disk template_text (Some target_text))\<lparr>write_fault := [backup_path \<mapsto> ''EACCES'']\<rparr>"

definition unreadable_env_disk :: fsys where
  "unreadable_env_disk =
     (example_disk template_text None)\<lparr>read_fault := [''/r/.env'' \<mapsto> ''EACCES'']\<rparr>"

definition themed_text :: string where
  \<open>themed_text = ''{"theme":"dark","mcpServers":{"foo":{"command":"a"}}}''\<close>

definition themed_doc :: json where
  "themed_doc =
     JObj [(''theme'', JStr ''dark''),
           (''mcpServers'', JObj [(''foo'', JObj [(''command'', JStr ''a'')])])]"

text \<open>A text that is not JSON, and a template whose placeholders are nested.\<close>

definition broken_text :: string where
  "broken_text = ''{oops''"

definition nested_template :: string where
  "nested_template = ''{{ASANA_MCP_{{DEBUG}}}}''"

text \<open>The texts that the chain of \<^verbatim>\<open>replace\<close> calls substitutes.\<close>

definition param_values :: "params \<Rightarrow> string list" where
  "param_values p =
     [escape_backslashes (orchestratorPath p), escape_backslashes (hubspotPath p),
      escape_backslashes (sharepointPath p), escape_backslashes (asanaPath p),
      hubspotUrl p, sharepointUrl p, asanaUrl p, debug p]"

section \<open>Properties\<close>

subsection \<open>Unfolding the model on an example\<close>

lemmas string_defs =
  is_space_def trim_def digit_char_def decimal.simps replace_all_def escape_backslashes_def

lemmas env_defs = assign_def env_line_def parse_env_def or_default_def

lemmas json_defs =
  digit_value_def array_index_def define_property_def keys_or_empty_def spread_def
  merge_servers_def

lemmas fs_defs = readFile_def writeFile_def mkdir_def say_def write_out_def failed_def

lemmas run_defs =
  loadEnv_def getClaudeConfigPath_def resolve_def render_def empty_config_def
  read_existing_def backupPath_def backup_def merge_config_def summary_def update_config_def
  generate_def generated_config_def install_def

lemmas node_defs =
  hex_char_def quote_char_def quote_def number_text_def json_stringify_def hex_value_def
  number_token_def lex_start_def number_end_def lex_def json_parse_def posix_join_def
  posix_dirname_def node_posix_def

lemmas example_defs =
  linux_host_def template_path_def config_path_def backup_path_def template_text_def
  target_text_def target_doc_def rendered_doc_def example_disk_def faulty_disk_def
  unreadable_env_disk_def themed_text_def themed_doc_def

subsection \<open>Objects as maps\<close>

lemma map_of_insert_index:
  "k \<notin> fst ` set kvs \<Longrightarrow> map_of (insert_index n k v kvs) = (map_of kvs)(k \<mapsto> v)"
  by (induction kvs) (auto split: option.splits simp: fun_upd_twist)

lemma map_of_define_property:
  "map_of (define_property kvs k v) = (map_of kvs)(k \<mapsto> v)"
proof (cases "k \<in> fst ` set kvs")
  case True
  then show ?thesis by (simp add: define_property_def update_conv')
next
  case False
  then have "map_of kvs k = None" by (simp add: map_of_eq_None_iff)
  with False show ?thesis
    by (auto simp: define_property_def map_of_insert_index map_add_def fun_eq_iff
        split: option.splits)
qed

lemma map_of_fold_define:
  "map_of (fold (\<lambda>(k, v) acc. define_property acc k v) es obj) = map_of obj ++ map_of (rev es)"
  by (induction es arbitrary: obj) (auto simp: map_of_define_property)

lemma map_of_rev_distinct:
  "distinct (map fst es) \<Longrightarrow> map_of (rev es) = map_of es"
  by (subst map_of_inject_set) (simp_all add: rev_map[symmetric])

text \<open>
  The decimal of a number is read back by \<^const>\<open>digits_value\<close>, so the indices of an
  array are distinct keys.
\<close>

lemma digits_value_append:
  "digits_value acc (xs @ [c]) =
     (case digits_value acc xs of
        None \<Rightarrow> None
      | Some a \<Rightarrow> (case digit_value c of None \<Rightarrow> None | Some d \<Rightarrow> Some (10 * a + d)))"
  by (induction xs arbitrary: acc) (auto split: option.splits)

lemma digit_value_digit_char: "d < 10 \<Longrightarrow> digit_value (digit_char d) = Some d"
  by (simp add: digit_value_def digit_char_def)

lemma digits_value_decimal: "digits_value 0 (decimal n) = Some n"
proof (induction n rule: decimal.induct)
  case (1 n)
  show ?case
  proof (cases "n < 10")
    case True
    then show ?thesis by (subst decimal.simps) (simp add: digit_value_digit_char)
  next
    case False
    with 1 have "digits_value 0 (decimal (n div 10)) = Some (n div 10)" by simp
    with False show ?thesis
      by (subst decimal.simps) (simp add: digits_value_append digit_value_digit_char)
  qed
qed

lemma inj_decimal: "inj decimal"
  by (rule inj_on_inverseI[where g = "\<lambda>s. the (digits_value 0 s)"])
    (simp add: digits_value_decimal)

lemma distinct_indices: "distinct (map decimal [0..<n])"
  by (simp add: distinct_map inj_decimal[THEN inj_on_subset])

lemma distinct_own_entries: "distinct (map fst (own_entries x))"
  by (cases x) (simp_all add: distinct_indices)

lemma map_of_spread:
  "map_of (spread src obj) =
     map_of obj ++ (case src of None \<Rightarrow> Map.empty | Some x \<Rightarrow> map_of (own_entries x))"
  by (cases src)
    (simp_all add: spread_def map_of_fold_define map_of_rev_distinct distinct_own_entries)

lemma providers_merged:
  assumes "get_mcpServers generatedConfig = Inr generated"
  shows "providers (JObj (AList.update ''mcpServers''
              (merge_servers (map_of existing ''mcpServers'') generated) existing)) =
         providers (JObj existing) ++ providers generatedConfig"
  using assms
  by (simp add: providers_def merge_servers_def update_conv' map_of_clearjunk map_of_spread
      split: option.splits)

lemma entries_merged:
  "merge_config doc g = Inr merged \<Longrightarrow> k \<noteq> ''mcpServers'' \<Longrightarrow> entries merged k = entries doc k"
  by (cases doc)
    (auto simp: merge_config_def entries_def map_of_clearjunk update_conv' split: sum.splits)

lemma keys_or_empty_providers:
  "get_mcpServers doc = Inr servers \<Longrightarrow> (keys_or_empty servers = []) = (providers doc = Map.empty)"
  by (cases servers; cases "the servers")
     (auto simp: keys_or_empty_def providers_def map_of_eq_empty_iff)

lemma providers_get:
  "providers doc \<noteq> Map.empty \<Longrightarrow> \<exists>servers. get_mcpServers doc = Inr servers"
  by (auto simp: providers_def split: sum.splits)

lemma providers_empty_config: "providers empty_config = Map.empty"
  by (simp add: providers_def empty_config_def)

subsection \<open>The steps of a run\<close>

lemma exit_code_failed [simp]: "exit_code (failed e r) = 1"
  by (simp add: failed_def)

lemma written_say [simp]: "written (say l r) = written r"
  by (simp add: say_def)

lemma disk_say [simp]: "disk (say l r) = disk r"
  by (simp add: say_def)

lemma console_say [simp]: "console (say l r) = console r @ [l]"
  by (simp add: say_def)

lemma final_failed [simp]: "final (failed e r) = say (FAILED e) r"
  by (simp add: failed_def)

lemma summary_state [simp]:
  "written (summary r) = written r" "disk (summary r) = disk r"
  by (simp_all add: summary_def)

lemma write_out_written:
  "write_out p t r = Inr r' \<Longrightarrow> written r' = written r @ [(p, t)] \<and> console r' = console r
     \<and> disk r' = (disk r)\<lparr>files := (files (disk r))(p \<mapsto> t)\<rparr>"
  by (auto simp: write_out_def writeFile_def split: option.splits sum.splits)

lemma write_out_fault:
  "write_fault (disk r) p = Some c \<Longrightarrow> write_out p t r = Inl (SystemError c)"
  by (simp add: write_out_def writeFile_def)

lemma write_out_ok:
  "write_fault (disk r) p = None \<Longrightarrow> \<exists>r'. write_out p t r = Inr r'"
  by (simp add: write_out_def writeFile_def)

lemma backupPath_neq: "backupPath h path \<noteq> path"
  by (simp add: backupPath_def)

lemma backup_result:
  assumes "backup P h path doc r = Inr r'"
  shows "written r' = written r @ (if providers doc \<noteq> Map.empty
            then [(backupPath h path, JSON_stringify P doc)] else [])"
  using assms
  by (auto simp: backup_def keys_or_empty_providers write_out_def writeFile_def
      split: sum.splits if_splits option.splits)

lemma backup_fault:
  assumes "providers doc \<noteq> Map.empty" and "write_fault (disk r) (backupPath h path) = Some c"
  shows "backup P h path doc r = Inl (SystemError c)"
  using assms providers_get[OF assms(1)]
  by (auto simp: backup_def keys_or_empty_providers write_out_fault)

lemma backup_taken:
  assumes "providers doc \<noteq> Map.empty" and "write_fault (disk r) (backupPath h path) = None"
  shows "\<exists>r'. backup P h path doc r = Inr r'"
proof -
  from providers_get[OF assms(1)] obtain servers where g: "get_mcpServers doc = Inr servers" ..
  from write_out_ok[OF assms(2)] obtain r' where
    w: "write_out (backupPath h path) (JSON_stringify P doc) r = Inr r'" by blast
  show ?thesis
    using assms(1) g w by (simp add: backup_def keys_or_empty_providers)
qed

lemma loadEnv_state:
  "loadEnv P h r = (res, r') \<Longrightarrow> disk r' = disk r \<and> written r' = written r"
  by (auto simp: loadEnv_def split: sum.splits if_splits)

lemma generate_state:
  "generate P h env r = (res, r') \<Longrightarrow> disk r' = disk r \<and> written r' = written r"
  by (auto simp: generate_def Let_def split: sum.splits option.splits)

lemma generated_config_state:
  assumes "generated_config P h fs = (res, r)"
  shows "disk r = fs \<and> written r = []"
proof -
  let ?r0 = "say (INFO ''Loading configuration...'') \<lparr>disk = fs, written = [], console = []\<rparr>"
  obtain res1 r1 where l: "loadEnv P h ?r0 = (res1, r1)" by (cases "loadEnv P h ?r0")
  from loadEnv_state[OF l] have r1: "disk r1 = fs \<and> written r1 = []" by simp
  show ?thesis
  proof (cases res1)
    case (Inl e)
    with assms l r1 show ?thesis by (simp add: generated_config_def)
  next
    case (Inr env)
    with assms l have "generate P h env r1 = (res, r)" by (simp add: generated_config_def)
    from generate_state[OF this] r1 show ?thesis by simp
  qed
qed

lemma generated_pair: "fst (generated_config P h fs) = Inr g
   \<Longrightarrow> generated_config P h fs = (Inr g, snd (generated_config P h fs))"
  by (cases "generated_config P h fs") simp

lemma install_failed_early:
  "generated_config P h fs = (Inl e, r) \<Longrightarrow> install P h fs = failed e r"
  by (simp add: install_def)

lemma install_update:
  "generated_config P h fs = (Inr g, r) \<Longrightarrow> install P h fs = update_config P h g r"
  by (simp add: install_def)

lemma install_aborted:
  assumes "generated_config P h fs = (Inl e, r)"
  shows "exit_code (install P h fs) = 1 \<and> written (final (install P h fs)) = []
         \<and> disk (final (install P h fs)) = fs
         \<and> last (console (final (install P h fs))) = FAILED e"
  using generated_config_state[OF assms] by (simp add: install_failed_early[OF assms])

lemma read_existing_absent:
  "readFile fs path = Inl (SystemError ''ENOENT'') \<Longrightarrow> read_existing P fs path = Inr empty_config"
  by (simp add: read_existing_def)

text \<open>
  What a run does once the existing document is read.
\<close>

lemma update_config_read:
  assumes path: "getClaudeConfigPath P h = Inr path"
    and mk: "mkdir (disk r) (path_dirname P path) = Inr ()"
    and doc: "read_existing P (disk r) path = Inr doc"
    and r1: "r1 = say (INFO (''Claude Desktop config: '' @ path)) r"
  shows "update_config P h g r =
     (case backup P h path doc r1 of
        Inl e \<Rightarrow> failed e r1
      | Inr r2 \<Rightarrow>
          (case merge_config doc g of
             Inl e \<Rightarrow> failed e r2
           | Inr merged \<Rightarrow>
               (case write_out path (JSON_stringify P merged) r2 of
                  Inl e \<Rightarrow> failed e r2
                | Inr r3 \<Rightarrow>
                    \<lparr>exit_code = 0,
                     final = summary (say (SUCCESS ''Claude Desktop configured'') r3)\<rparr>)))"
  unfolding r1 using path mk doc by (simp add: update_config_def Let_def split: sum.splits)

lemma update_config_success:
  assumes ok: "exit_code (update_config P h g r) = 0"
    and path: "getClaudeConfigPath P h = Inr path"
    and doc: "read_existing P (disk r) path = Inr doc"
  shows "\<exists>merged. merge_config doc g = Inr merged \<and>
           written (final (update_config P h g r)) =
             written r
             @ (if providers doc \<noteq> Map.empty
                then [(backupPath h path, JSON_stringify P doc)] else [])
             @ [(path, JSON_stringify P merged)] \<and>
           files (disk (final (update_config P h g r))) path = Some (JSON_stringify P merged)"
proof -
  define r1 where "r1 = say (INFO (''Claude Desktop config: '' @ path)) r"
  have wr1: "written r1 = written r" by (simp add: r1_def)
  from ok path have mk: "mkdir (disk r) (path_dirname P path) = Inr ()"
    by (auto simp: update_config_def Let_def split: sum.splits)
  note shape = update_config_read[OF path mk doc r1_def, of g]
  from ok obtain r2 where b: "backup P h path doc r1 = Inr r2"
    by (auto simp: shape split: sum.splits)
  from ok b obtain merged where m: "merge_config doc g = Inr merged"
    by (auto simp: shape split: sum.splits)
  from ok b m obtain r3 where w: "write_out path (JSON_stringify P merged) r2 = Inr r3"
    by (auto simp: shape split: sum.splits)
  show ?thesis
    using m backup_result[OF b] write_out_written[OF w] wr1
    by (simp add: shape b w summary_def)
qed

lemma update_config_after_backup:
  assumes path: "getClaudeConfigPath P h = Inr path"
    and mk: "mkdir (disk r) (path_dirname P path) = Inr ()"
    and doc: "read_existing P (disk r) path = Inr doc"
    and b: "backup P h path doc (say (INFO (''Claude Desktop config: '' @ path)) r) = Inr r2"
  shows "(\<exists>rest. written (final (update_config P h g r)) = written r2 @ rest)
         \<and> files (disk (final (update_config P h g r))) (backupPath h path)
             = files (disk r2) (backupPath h path)"
proof -
  define r1 where "r1 = say (INFO (''Claude Desktop config: '' @ path)) r"
  note shape = update_config_read[OF path mk doc r1_def, of g]
  from b have b': "backup P h path doc r1 = Inr r2" by (simp add: r1_def)
  show ?thesis
  proof (cases "merge_config doc g")
    case (Inl e)
    then show ?thesis by (simp add: shape b')
  next
    case (Inr merged)
    show ?thesis
    proof (cases "write_out path (JSON_stringify P merged) r2")
      case (Inl e)
      with Inr show ?thesis by (simp add: shape b')
    next
      case w: (Inr r3)
      from write_out_written[OF w] Inr w show ?thesis
        by (simp add: shape b' backupPath_neq)
    qed
  qed
qed

lemma backup_outcome:
  assumes "write_fault (disk r) (backupPath h path) = None"
  shows "(providers doc \<noteq> Map.empty \<and>
            (\<exists>r'. backup P h path doc r = Inr r'
                \<and> written r' = written r @ [(backupPath h path, JSON_stringify P doc)]))
         \<or> (providers doc = Map.empty \<and>
            (backup P h path doc r = Inr r \<or> (\<exists>e. backup P h path doc r = Inl e)))"
proof (cases "providers doc = Map.empty")
  case True
  then show ?thesis
    by (cases "get_mcpServers doc") (auto simp: backup_def keys_or_empty_providers)
next
  case False
  from backup_taken[OF False assms] obtain r' where b: "backup P h path doc r = Inr r'" ..
  from backup_result[OF b] False b show ?thesis by simp
qed

lemma update_config_writes:
  assumes path: "getClaudeConfigPath P h = Inr path"
    and mk: "mkdir (disk r) (path_dirname P path) = Inr ()"
    and doc: "read_existing P (disk r) path = Inr doc"
    and nofault: "write_fault (disk r) (backupPath h path) = None"
  shows "\<exists>rest. written (final (update_config P h g r)) =
           written r
           @ (if providers doc \<noteq> Map.empty
              then [(backupPath h path, JSON_stringify P doc)] else [])
           @ rest
         \<and> (rest = [] \<or> (\<exists>t. rest = [(path, t)]))
         \<and> (exit_code (update_config P h g r) = 0 \<longrightarrow> rest \<noteq> [])"
proof -
  define r1 where "r1 = say (INFO (''Claude Desktop config: '' @ path)) r"
  note shape = update_config_read[OF path mk doc r1_def, of g]
  have nf: "write_fault (disk r1) (backupPath h path) = None"
    using nofault by (simp add: r1_def)
  have w1: "written r1 = written r" by (simp add: r1_def)
  have tail: "\<exists>rest. written (final
        (case merge_config doc g of
           Inl e \<Rightarrow> failed e r2
         | Inr merged \<Rightarrow>
             (case write_out path (JSON_stringify P merged) r2 of
                Inl e \<Rightarrow> failed e r2
              | Inr r3 \<Rightarrow>
                  \<lparr>exit_code = 0,
                   final = summary (say (SUCCESS ''Claude Desktop configured'') r3)\<rparr>)))
        = written r2 @ rest
      \<and> (rest = [] \<or> (\<exists>t. rest = [(path, t)]))
      \<and> (exit_code
        (case merge_config doc g of
           Inl e \<Rightarrow> failed e r2
         | Inr merged \<Rightarrow>
             (case write_out path (JSON_stringify P merged) r2 of
                Inl e \<Rightarrow> failed e r2
              | Inr r3 \<Rightarrow>
                  \<lparr>exit_code = 0,
                   final = summary (say (SUCCESS ''Claude Desktop configured'') r3)\<rparr>)) = 0
          \<longrightarrow> rest \<noteq> [])" for r2
  proof (cases "merge_config doc g")
    case (Inl e)
    then show ?thesis by simp
  next
    case (Inr merged)
    show ?thesis
    proof (cases "write_out path (JSON_stringify P merged) r2")
      case (Inl e)
      with Inr show ?thesis by simp
    next
      case w: (Inr r3)
      from write_out_written[OF w] Inr w show ?thesis by simp
    qed
  qed
  from backup_outcome[OF nf, of doc P] show ?thesis
  proof (elim disjE conjE exE)
    fix r' assume "providers doc \<noteq> Map.empty" "backup P h path doc r1 = Inr r'"
      "written r' = written r1 @ [(backupPath h path, JSON_stringify P doc)]"
    with tail[of r'] w1 show ?thesis by (auto simp: shape)
  next
    assume "providers doc = Map.empty" "backup P h path doc r1 = Inr r1"
    with tail[of r1] w1 show ?thesis by (auto simp: shape)
  next
    fix e assume "providers doc = Map.empty" "backup P h path doc r1 = Inl e"
    with w1 show ?thesis by (simp add: shape)
  qed
qed

lemma install_success:
  assumes ok: "exit_code (install P h fs) = 0"
    and path: "getClaudeConfigPath P h = Inr path"
    and doc: "read_existing P fs path = Inr doc"
  shows "\<exists>g r merged. generated_config P h fs = (Inr g, r) \<and> merge_config doc g = Inr merged \<and>
           written (final (install P h fs)) =
             (if providers doc \<noteq> Map.empty
              then [(backupPath h path, JSON_stringify P doc)] else [])
             @ [(path, JSON_stringify P merged)] \<and>
           files (disk (final (install P h fs))) path = Some (JSON_stringify P merged)"
proof -
  obtain res r where gen: "generated_config P h fs = (res, r)"
    by (cases "generated_config P h fs")
  from ok gen obtain g where res: "res = Inr g"
    by (cases res) (auto simp: install_def)
  note st = generated_config_state[OF gen]
  have inst: "install P h fs = update_config P h g r"
    using gen res by (simp add: install_def)
  from update_config_success[of P h g r path doc] ok path doc st inst gen res
  show ?thesis by auto
qed

subsection \<open>The example runs\<close>

lemma example_path: "getClaudeConfigPath node_posix linux_host = Inr config_path"
  by (simp add: getClaudeConfigPath_def node_defs example_defs)

lemma example_backup_path: "backupPath linux_host config_path = backup_path"
  by (simp add: backupPath_def string_defs example_defs)

lemma example_mkdir: "mkdir (example_disk template target) d = Inr ()"
  by (simp add: mkdir_def example_disk_def)

lemma example_no_fault: "write_fault (example_disk template target) p = None"
  by (simp add: example_disk_def)

lemma example_env_absent:
  "readFile (example_disk template target) (path_join node_posix (rootDir linux_host) ''.env'')
     = Inl (SystemError ''ENOENT'')"
  by (simp add: readFile_def node_defs example_defs)

lemma example_loadEnv:
  "loadEnv node_posix linux_host
     (say (INFO ''Loading configuration...'')
        \<lparr>disk = example_disk template target, written = [], console = []\<rparr>)
   = (Inr Map.empty,
      say (WARNING ''.env file not found, using defaults'')
        (say (INFO ''Loading configuration...'')
           \<lparr>disk = example_disk template target, written = [], console = []\<rparr>))"
  by (simp add: loadEnv_def readFile_def say_def node_defs example_defs)

lemma example_read_template:
  "readFile (example_disk template target)
     (path_join node_posix (rootDir linux_host) ''config/claudeDesktopConfig.template.json'')
   = Inr template"
  by (simp add: readFile_def node_defs example_defs)

lemma example_generated:
  "fst (generated_config node_posix linux_host (example_disk template_text target))
     = Inr rendered_doc"
  by (simp add: string_defs env_defs json_defs fs_defs run_defs node_defs example_defs)

lemma example_read_existing:
  "read_existing node_posix (example_disk template (Some target_text)) config_path
     = Inr target_doc"
  by (simp add: string_defs json_defs fs_defs read_existing_def node_defs example_defs)

lemma example_read_target:
  "readFile (example_disk template (Some target_text)) config_path = Inr target_text"
  by (simp add: fs_defs example_defs)

lemma example_parse_target: "JSON_parse node_posix target_text = Some target_doc"
  by (simp add: string_defs json_defs node_defs example_defs)

lemma example_read_absent:
  "readFile (example_disk template None) config_path = Inl (SystemError ''ENOENT'')"
  by (simp add: fs_defs example_defs)

lemma example_read_broken:
  "readFile (example_disk template (Some broken_text)) config_path = Inr broken_text"
  by (simp add: fs_defs example_defs)

lemma example_providers: "providers target_doc \<noteq> Map.empty"
  by (simp add: providers_def target_doc_def fun_eq_iff)

lemma example_merge_absent: "merge_config empty_config rendered_doc = Inr rendered_doc"
  by (simp add: merge_config_def json_defs empty_config_def rendered_doc_def)

lemma example_run_existing:
  "exit_code (install node_posix linux_host (example_disk template_text (Some target_text))) = 0"
  by (simp add: string_defs env_defs json_defs fs_defs run_defs node_defs example_defs)

lemma example_run_absent:
  "exit_code (install node_posix linux_host (example_disk template_text None)) = 0"
  by (simp add: string_defs env_defs json_defs fs_defs run_defs node_defs example_defs)

lemma faulty_generated: "fst (generated_config node_posix linux_host faulty_disk) = Inr rendered_doc"
  by (simp add: string_defs env_defs json_defs fs_defs run_defs node_defs example_defs)

lemma faulty_read_existing: "read_existing node_posix faulty_disk config_path = Inr target_doc"
  by (simp add: string_defs json_defs fs_defs read_existing_def node_defs example_defs)

lemma faulty_fault: "write_fault faulty_disk (backupPath linux_host config_path) = Some ''EACCES''"
  by (simp add: example_backup_path) (simp add: example_defs)

lemma stringify_differs: "json_stringify target_doc \<noteq> target_text"
  by (simp add: string_defs node_defs example_defs)

lemma themed_run:
  "exit_code (install node_posix linux_host (example_disk template_text (Some themed_text))) = 0"
  by (simp add: string_defs env_defs json_defs fs_defs run_defs node_defs example_defs)

lemma themed_read_existing:
  "read_existing node_posix (example_disk template (Some themed_text)) config_path
     = Inr themed_doc"
  by (simp add: string_defs json_defs fs_defs read_existing_def node_defs example_defs)

lemma broken_parse: "JSON_parse node_posix broken_text = None"
  by (simp add: string_defs json_defs node_defs broken_text_def)

lemma broken_render:
  "JSON_parse node_posix (render (resolve node_posix linux_host Map.empty) broken_text) = None"
  by (simp add: string_defs env_defs json_defs run_defs node_defs example_defs broken_text_def)

lemma unreadable_env:
  "readFile unreadable_env_disk (path_join node_posix (rootDir linux_host) ''.env'')
     = Inl (SystemError ''EACCES'')"
  by (simp add: readFile_def node_defs example_defs)

subsection \<open>The merge\<close>

text \<open>
  C1. For every provider name, the merged document has the entry of the generated
  document when the generated document defines the name (the whole entry, as it is), and
  otherwise the entry of the existing document, unchanged; the names of the merged
  document are the names of the two documents together.
\<close>

theorem merge_last_writer_wins:
  assumes "merge_config (JObj existing) generatedConfig = Inr merged"
  shows "(\<forall>name. providers merged name =
            (case providers generatedConfig name of
               Some entry \<Rightarrow> Some entry
             | None \<Rightarrow> providers (JObj existing) name))
         \<and> dom (providers merged)
             = dom (providers (JObj existing)) \<union> dom (providers generatedConfig)"
proof -
  from assms obtain generated where g: "get_mcpServers generatedConfig = Inr generated"
    and m: "merged = JObj (AList.update ''mcpServers''
                (merge_servers (map_of existing ''mcpServers'') generated) existing)"
    by (auto simp: merge_config_def split: sum.splits)
  have "providers merged = providers (JObj existing) ++ providers generatedConfig"
    unfolding m by (rule providers_merged[OF g])
  then show ?thesis
    by (auto simp: map_add_def split: option.splits)
qed

theorem merge_last_writer_wins_witness:
  "merge_config existing_doc generated_doc = Inr merged_doc
   \<and> (\<forall>name. providers merged_doc name =
          (case providers generated_doc name of
             Some entry \<Rightarrow> Some entry
           | None \<Rightarrow> providers existing_doc name))
   \<and> dom (providers merged_doc) = dom (providers existing_doc) \<union> dom (providers generated_doc)
   \<and> providers merged_doc ''x'' = Some (JObj [(''command'', JStr ''new'')])"
proof -
  have run: "merge_config existing_doc generated_doc = Inr merged_doc"
    by (simp add: merge_config_def json_defs existing_doc_def generated_doc_def merged_doc_def)
  have entry: "providers merged_doc ''x'' = Some (JObj [(''command'', JStr ''new'')])"
    by (simp add: providers_def merged_doc_def)
  from merge_last_writer_wins[OF run[unfolded existing_doc_def], folded existing_doc_def]
    run entry
  show ?thesis by simp
qed

subsection \<open>The backup\<close>

text \<open>
  C2. Take a run that gets as far as the backup (the template is rendered and parsed, the
  existing document is read) on a file system where the backup file can be written. What
  it writes to a path other than the configuration file is one backup file when the
  existing document has a provider, and nothing otherwise; the backup is named after the
  configuration file, followed by \<^verbatim>\<open>.backup.\<close> and the time in milliseconds. A
  configuration file that does not exist is read as \<^verbatim>\<open>{mcpServers: {}}\<close>, which has no
  provider. When the run completes, the configuration file is written after the backup,
  or alone.
\<close>

theorem backup_iff_existing_providers:
  assumes gen: "generated_config P h fs = (Inr g, r)"
    and path: "getClaudeConfigPath P h = Inr path"
    and mk: "mkdir fs (path_dirname P path) = Inr ()"
    and doc: "read_existing P fs path = Inr doc"
    and nofault: "write_fault fs (backupPath h path) = None"
  shows "filter (\<lambda>w. fst w \<noteq> path) (written (final (install P h fs))) =
           (if providers doc \<noteq> Map.empty
            then [(backupPath h path, JSON_stringify P doc)] else [])
         \<and> backupPath h path = path @ ''.backup.'' @ decimal (now h)
         \<and> (readFile fs path = Inl (SystemError ''ENOENT'') \<longrightarrow> providers doc = Map.empty)
         \<and> (exit_code (install P h fs) = 0 \<longrightarrow>
              (\<exists>final_text. written (final (install P h fs)) =
                 (if providers doc \<noteq> Map.empty
                  then [(backupPath h path, JSON_stringify P doc)] else [])
                 @ [(path, final_text)]))"
proof -
  note st = generated_config_state[OF gen]
  from update_config_writes[where r = r and g = g, OF path _ _ _] mk doc nofault st
  obtain rest where
    w: "written (final (install P h fs)) =
           (if providers doc \<noteq> Map.empty
            then [(backupPath h path, JSON_stringify P doc)] else []) @ rest"
    and rest: "rest = [] \<or> (\<exists>t. rest = [(path, t)])"
    and completed: "exit_code (install P h fs) = 0 \<longrightarrow> rest \<noteq> []"
    by (auto simp: install_update[OF gen])
  have absent: "readFile fs path = Inl (SystemError ''ENOENT'') \<longrightarrow> providers doc = Map.empty"
    using doc by (auto simp: read_existing_absent providers_empty_config)
  from w rest completed absent show ?thesis
    by (auto simp: backupPath_neq) (simp_all add: backupPath_def)
qed

theorem backup_iff_existing_providers_witness:
  "fst (generated_config node_posix linux_host (example_disk template_text (Some target_text)))
     = Inr rendered_doc
   \<and> read_existing node_posix (example_disk template_text (Some target_text)) config_path
       = Inr target_doc
   \<and> providers target_doc \<noteq> Map.empty
   \<and> filter (\<lambda>w. fst w \<noteq> config_path)
         (written (final (install node_posix linux_host
            (example_disk template_text (Some target_text)))))
       = [(backup_path, json_stringify target_doc)]
   \<and> exit_code (install node_posix linux_host (example_disk template_text (Some target_text))) = 0
   \<and> (\<exists>final_text. written (final (install node_posix linux_host
                   (example_disk template_text (Some target_text))))
         = [(backup_path, json_stringify target_doc), (config_path, final_text)])
   \<and> read_existing node_posix (example_disk template_text None) config_path = Inr empty_config
   \<and> filter (\<lambda>w. fst w \<noteq> config_path)
         (written (final (install node_posix linux_host (example_disk template_text None)))) = []
   \<and> exit_code (install node_posix linux_host (example_disk template_text None)) = 0
   \<and> (\<exists>final_text. written (final (install node_posix linux_host (example_disk template_text None)))
         = [(config_path, final_text)])"
proof -
  have absent: "read_existing node_posix (example_disk template_text None) config_path
      = Inr empty_config"
    by (rule read_existing_absent[OF example_read_absent])
  have stringify: "JSON_stringify node_posix = json_stringify"
    by (simp add: node_posix_def)
  from backup_iff_existing_providers[OF generated_pair[OF example_generated] example_path
      example_mkdir example_read_existing example_no_fault]
    backup_iff_existing_providers[OF generated_pair[OF example_generated] example_path
      example_mkdir absent example_no_fault]
    example_generated example_run_existing example_run_absent example_read_existing absent
    example_providers
  show ?thesis
    by (simp add: stringify example_backup_path providers_empty_config)
qed

text \<open>
  C3, as the script has it. The claim is that a backup that cannot be written is only
  logged and the run goes on. The backup is written inside the one \<^verbatim>\<open>try\<close> block of
  \<^verbatim>\<open>install\<close>, so its failure is fatal: the run ends with exit code 1, the error is
  printed, nothing is written and the configuration file keeps its text.
\<close>

theorem backup_failure_aborts:
  assumes gen: "generated_config P h fs = (Inr g, r)"
    and path: "getClaudeConfigPath P h = Inr path"
    and mk: "mkdir fs (path_dirname P path) = Inr ()"
    and doc: "read_existing P fs path = Inr doc"
    and some: "providers doc \<noteq> Map.empty"
    and fault: "write_fault fs (backupPath h path) = Some c"
  shows "exit_code (install P h fs) = 1
         \<and> written (final (install P h fs)) = []
         \<and> disk (final (install P h fs)) = fs
         \<and> last (console (final (install P h fs))) = FAILED (SystemError c)"
proof -
  note st = generated_config_state[OF gen]
  define r1 where "r1 = say (INFO (''Claude Desktop config: '' @ path)) r"
  have shape: "install P h fs =
     (case backup P h path doc r1 of
        Inl e \<Rightarrow> failed e r1
      | Inr r2 \<Rightarrow>
          (case merge_config doc g of
             Inl e \<Rightarrow> failed e r2
           | Inr merged \<Rightarrow>
               (case write_out path (JSON_stringify P merged) r2 of
                  Inl e \<Rightarrow> failed e r2
                | Inr r3 \<Rightarrow>
                    \<lparr>exit_code = 0,
                     final = summary (say (SUCCESS ''Claude Desktop configured'') r3)\<rparr>)))"
    using update_config_read[where r = r and doc = doc and g = g, OF path _ _ r1_def] mk doc st
    by (simp add: install_update[OF gen])
  have "backup P h path doc r1 = Inl (SystemError c)"
    using some fault st by (intro backup_fault) (simp_all add: r1_def)
  then show ?thesis
    using st by (simp add: shape r1_def)
qed

theorem backup_failure_aborts_witness:
  "fst (generated_config node_posix linux_host faulty_disk) = Inr rendered_doc
   \<and> getClaudeConfigPath node_posix linux_host = Inr config_path
   \<and> read_existing node_posix faulty_disk config_path = Inr target_doc
   \<and> providers target_doc \<noteq> Map.empty
   \<and> write_fault faulty_disk (backupPath linux_host config_path) = Some ''EACCES''
   \<and> exit_code (install node_posix linux_host faulty_disk) = 1
   \<and> written (final (install node_posix linux_host faulty_disk)) = []
   \<and> disk (final (install node_posix linux_host faulty_disk)) = faulty_disk
   \<and> last (console (final (install node_posix linux_host faulty_disk)))
       = FAILED (SystemError ''EACCES'')"
proof -
  have mk: "mkdir faulty_disk (path_dirname node_posix config_path) = Inr ()"
    by (simp add: mkdir_def example_defs)
  from backup_failure_aborts[OF generated_pair[OF faulty_generated] example_path mk
      faulty_read_existing example_providers faulty_fault]
    faulty_generated example_path faulty_read_existing example_providers faulty_fault
  show ?thesis by simp
qed

text \<open>
  C3, as claimed, fails on the example: the existing document has a provider, the backup
  file cannot be written, and the run exits with 1 and leaves the configuration file as
  it was.
\<close>

theorem backup_failure_counterexample:
  "files faulty_disk config_path = Some target_text
   \<and> providers target_doc \<noteq> Map.empty
   \<and> read_existing node_posix faulty_disk config_path = Inr target_doc
   \<and> write_fault faulty_disk backup_path = Some ''EACCES''
   \<and> exit_code (install node_posix linux_host faulty_disk) = 1
   \<and> written (final (install node_posix linux_host faulty_disk)) = []
   \<and> files (disk (final (install node_posix linux_host faulty_disk))) config_path
       = Some target_text"
proof -
  have "exit_code (install node_posix linux_host faulty_disk) = 1
     \<and> written (final (install node_posix linux_host faulty_disk)) = []
     \<and> files (disk (final (install node_posix linux_host faulty_disk))) config_path
         = Some target_text"
    by (simp add: string_defs env_defs json_defs fs_defs run_defs node_defs example_defs)
  moreover have "files faulty_disk config_path = Some target_text"
    "write_fault faulty_disk backup_path = Some ''EACCES''"
    by (simp_all add: example_defs)
  ultimately show ?thesis
    using example_providers faulty_read_existing by simp
qed

text \<open>
  C8, as the script has it. Whenever a backup is taken, the backup file holds
  \<^verbatim>\<open>JSON.stringify(doc, null, 2)\<close> of the document \<open>doc\<close> parsed from the configuration
  file before the merge: the whole document, serialised again, and it stays on the disk
  whatever the rest of the run does.
\<close>

theorem backup_is_serialised_document:
  assumes gen: "generated_config P h fs = (Inr g, r)"
    and path: "getClaudeConfigPath P h = Inr path"
    and mk: "mkdir fs (path_dirname P path) = Inr ()"
    and content: "readFile fs path = Inr existing"
    and doc: "JSON_parse P existing = Some doc"
    and some: "providers doc \<noteq> Map.empty"
    and nofault: "write_fault fs (backupPath h path) = None"
  shows "(\<exists>rest. written (final (install P h fs))
             = (backupPath h path, JSON_stringify P doc) # rest)
         \<and> files (disk (final (install P h fs))) (backupPath h path)
             = Some (JSON_stringify P doc)"
proof -
  note st = generated_config_state[OF gen]
  define r1 where "r1 = say (INFO (''Claude Desktop config: '' @ path)) r"
  have rd: "read_existing P (disk r) path = Inr doc"
    using content doc st by (simp add: read_existing_def)
  have "\<exists>r2. backup P h path doc r1 = Inr r2"
    using some nofault st by (intro backup_taken) (simp_all add: r1_def)
  then obtain r2 where b: "backup P h path doc r1 = Inr r2" ..
  have w2: "written r2 = [(backupPath h path, JSON_stringify P doc)]"
    using backup_result[OF b] some st by (simp add: r1_def)
  have f2: "files (disk r2) (backupPath h path) = Some (JSON_stringify P doc)"
    using b some providers_get[OF some]
    by (auto simp: backup_def keys_or_empty_providers write_out_def writeFile_def
        split: sum.splits option.splits if_splits)
  from update_config_after_backup[OF path _ rd b[unfolded r1_def], of g] mk st w2 f2
  show ?thesis
    by (simp add: install_update[OF gen])
qed

theorem backup_is_serialised_document_witness:
  "fst (generated_config node_posix linux_host (example_disk template_text (Some target_text)))
     = Inr rendered_doc
   \<and> getClaudeConfigPath node_posix linux_host = Inr config_path
   \<and> readFile (example_disk template_text (Some target_text)) config_path = Inr target_text
   \<and> JSON_parse node_posix target_text = Some target_doc
   \<and> providers target_doc \<noteq> Map.empty
   \<and> (\<exists>rest. written (final (install node_posix linux_host
                   (example_disk template_text (Some target_text))))
         = (backup_path, json_stringify target_doc) # rest)
   \<and> files (disk (final (install node_posix linux_host
                (example_disk template_text (Some target_text))))) backup_path
       = Some (json_stringify target_doc)"
proof -
  have stringify: "JSON_stringify node_posix = json_stringify"
    by (simp add: node_posix_def)
  from backup_is_serialised_document[OF generated_pair[OF example_generated] example_path
      example_mkdir example_read_target example_parse_target example_providers example_no_fault]
    example_generated example_path example_read_target example_parse_target example_providers
  show ?thesis by (simp add: stringify example_backup_path)
qed

text \<open>
  C8, as claimed (the backup holds the text of the existing file verbatim), fails on the
  example: the file has 38 characters on one line, its backup the 65 characters of the
  indented serialisation.
\<close>

theorem backup_not_verbatim_counterexample:
  "files (example_disk template_text (Some target_text)) config_path = Some target_text
   \<and> hd (written (final (install node_posix linux_host
            (example_disk template_text (Some target_text)))))
       = (backup_path, json_stringify target_doc)
   \<and> json_stringify target_doc \<noteq> target_text
   \<and> length (json_stringify target_doc) = 65
   \<and> length target_text = 38"
proof -
  have "hd (written (final (install node_posix linux_host
            (example_disk template_text (Some target_text)))))
       = (backup_path, json_stringify target_doc)"
    by (simp add: string_defs env_defs json_defs fs_defs run_defs node_defs example_defs)
  moreover have "length (json_stringify target_doc) = 65" "length target_text = 38"
    by (simp_all add: string_defs node_defs example_defs)
  moreover have "files (example_disk template_text (Some target_text)) config_path
      = Some target_text"
    by (simp add: example_defs)
  ultimately show ?thesis using stringify_differs by simp
qed

subsection \<open>The entries of other tools\<close>

text \<open>
  C5. When a run completes, the text persisted at the configuration file is the
  serialisation of the merged document, and every top-level entry of the existing
  document other than \<^verbatim>\<open>mcpServers\<close> is an entry of the merged document, with the same
  value.
\<close>

theorem other_entries_preserved:
  assumes "exit_code (install P h fs) = 0"
    and "getClaudeConfigPath P h = Inr path"
    and "read_existing P fs path = Inr doc"
  shows "\<exists>merged. files (disk (final (install P h fs))) path = Some (JSON_stringify P merged)
           \<and> (\<exists>g r. generated_config P h fs = (Inr g, r) \<and> merge_config doc g = Inr merged)
           \<and> (\<forall>k. k \<noteq> ''mcpServers'' \<longrightarrow> entries merged k = entries doc k)"
proof -
  from install_success[OF assms] obtain g r merged where
    gen: "generated_config P h fs = (Inr g, r)" and m: "merge_config doc g = Inr merged"
    and f: "files (disk (final (install P h fs))) path = Some (JSON_stringify P merged)"
    by blast
  from entries_merged[OF m] have "\<forall>k. k \<noteq> ''mcpServers'' \<longrightarrow> entries merged k = entries doc k"
    by blast
  with gen m f show ?thesis by blast
qed

theorem other_entries_preserved_witness:
  "exit_code (install node_posix linux_host (example_disk template_text (Some themed_text))) = 0
   \<and> read_existing node_posix (example_disk template_text (Some themed_text)) config_path
       = Inr themed_doc
   \<and> (\<exists>merged. files (disk (final (install node_posix linux_host
                       (example_disk template_text (Some themed_text))))) config_path
                  = Some (json_stringify merged)
         \<and> entries merged ''theme'' = Some (JStr ''dark''))"
proof -
  have stringify: "JSON_stringify node_posix = json_stringify"
    by (simp add: node_posix_def)
  have theme: "entries themed_doc ''theme'' = Some (JStr ''dark'')"
    by (simp add: entries_def themed_doc_def)
  from other_entries_preserved[OF themed_run example_path themed_read_existing]
  obtain merged where
    f: "files (disk (final (install node_posix linux_host
          (example_disk template_text (Some themed_text))))) config_path
        = Some (json_stringify merged)"
    and e: "\<forall>k. k \<noteq> ''mcpServers'' \<longrightarrow> entries merged k = entries themed_doc k"
    unfolding stringify by blast
  from e theme have "entries merged ''theme'' = Some (JStr ''dark'')" by simp
  with f themed_run themed_read_existing show ?thesis by blast
qed

subsection \<open>Documents that do not parse\<close>

text \<open>
  C4. A rendered template that \<^verbatim>\<open>JSON.parse\<close> rejects is fatal, and so is an existing
  configuration file that it rejects: the run exits with 1 after printing the
  \<^verbatim>\<open>SyntaxError\<close>, and nothing has been written (the file system is as it was). A
  configuration file that does not exist is read as \<^verbatim>\<open>{mcpServers: {}}\<close>, which is not
  an error: the run completes and writes the merge of that document.
\<close>

theorem parse_failures_abort_before_writing:
  "(loadEnv P h (say (INFO ''Loading configuration...'')
        \<lparr>disk = fs, written = [], console = []\<rparr>) = (Inr env, r)
    \<and> readFile fs (path_join P (rootDir h) ''config/claudeDesktopConfig.template.json'')
        = Inr template
    \<and> JSON_parse P (render (resolve P h env) template) = None
    \<longrightarrow> exit_code (install P h fs) = 1 \<and> written (final (install P h fs)) = []
        \<and> disk (final (install P h fs)) = fs
        \<and> last (console (final (install P h fs))) = FAILED SyntaxError)
   \<and> (generated_config P h fs = (Inr g, r')
      \<and> getClaudeConfigPath P h = Inr path
      \<and> mkdir fs (path_dirname P path) = Inr ()
      \<and> readFile fs path = Inr existing
      \<and> JSON_parse P existing = None
      \<longrightarrow> exit_code (install P h fs) = 1 \<and> written (final (install P h fs)) = []
          \<and> disk (final (install P h fs)) = fs
          \<and> last (console (final (install P h fs))) = FAILED SyntaxError)
   \<and> (generated_config P h fs = (Inr g, r')
      \<and> getClaudeConfigPath P h = Inr path
      \<and> mkdir fs (path_dirname P path) = Inr ()
      \<and> readFile fs path = Inl (SystemError ''ENOENT'')
      \<and> merge_config empty_config g = Inr merged
      \<and> write_fault fs path = None
      \<longrightarrow> read_existing P fs path = Inr empty_config
          \<and> exit_code (install P h fs) = 0
          \<and> written (final (install P h fs)) = [(path, JSON_stringify P merged)])"
proof (intro conjI impI)
  assume a: "loadEnv P h (say (INFO ''Loading configuration...'')
        \<lparr>disk = fs, written = [], console = []\<rparr>) = (Inr env, r)
    \<and> readFile fs (path_join P (rootDir h) ''config/claudeDesktopConfig.template.json'')
        = Inr template
    \<and> JSON_parse P (render (resolve P h env) template) = None"
  then have "disk r = fs" using loadEnv_state[of P h _ "Inr env" r] by auto
  with a have "\<exists>r2. generated_config P h fs = (Inl SyntaxError, r2)"
    by (simp add: generated_config_def generate_def Let_def)
  then obtain r2 where "generated_config P h fs = (Inl SyntaxError, r2)" ..
  from install_aborted[OF this]
  show "exit_code (install P h fs) = 1" "written (final (install P h fs)) = []"
    "disk (final (install P h fs)) = fs"
    "last (console (final (install P h fs))) = FAILED SyntaxError"
    by simp_all
next
  assume a: "generated_config P h fs = (Inr g, r')
      \<and> getClaudeConfigPath P h = Inr path
      \<and> mkdir fs (path_dirname P path) = Inr ()
      \<and> readFile fs path = Inr existing
      \<and> JSON_parse P existing = None"
  then have gen: "generated_config P h fs = (Inr g, r')" by simp
  note st = generated_config_state[OF gen]
  from a st have "install P h fs
      = failed SyntaxError (say (INFO (''Claude Desktop config: '' @ path)) r')"
    by (simp add: install_update[OF gen] update_config_def read_existing_def Let_def)
  with st show "exit_code (install P h fs) = 1" "written (final (install P h fs)) = []"
    "disk (final (install P h fs)) = fs"
    "last (console (final (install P h fs))) = FAILED SyntaxError"
    by simp_all
next
  assume a: "generated_config P h fs = (Inr g, r')
      \<and> getClaudeConfigPath P h = Inr path
      \<and> mkdir fs (path_dirname P path) = Inr ()
      \<and> readFile fs path = Inl (SystemError ''ENOENT'')
      \<and> merge_config empty_config g = Inr merged
      \<and> write_fault fs path = None"
  then have gen: "generated_config P h fs = (Inr g, r')" by simp
  note st = generated_config_state[OF gen]
  from a show rd: "read_existing P fs path = Inr empty_config"
    by (simp add: read_existing_absent)
  define r1 where "r1 = say (INFO (''Claude Desktop config: '' @ path)) r'"
  have b: "backup P h path empty_config r1 = Inr r1"
    by (simp add: backup_def empty_config_def keys_or_empty_def)
  from a st have "\<exists>r3. write_out path (JSON_stringify P merged) r1 = Inr r3"
    by (intro write_out_ok) (simp add: r1_def)
  then obtain r3 where w: "write_out path (JSON_stringify P merged) r1 = Inr r3" ..
  have shape: "install P h fs =
      \<lparr>exit_code = 0, final = summary (say (SUCCESS ''Claude Desktop configured'') r3)\<rparr>"
    using update_config_read[where P = P and h = h and path = path and doc = empty_config
        and g = g and r = r', OF _ _ _ r1_def] a st rd b w
    by (simp add: install_update[OF gen])
  from write_out_written[OF w] st
  show "exit_code (install P h fs) = 0"
    "written (final (install P h fs)) = [(path, JSON_stringify P merged)]"
    by (simp_all add: shape r1_def)
qed

theorem parse_failures_abort_before_writing_witness:
  "JSON_parse node_posix (render (resolve node_posix linux_host Map.empty) broken_text) = None
   \<and> exit_code (install node_posix linux_host (example_disk broken_text (Some target_text))) = 1
   \<and> written (final (install node_posix linux_host
          (example_disk broken_text (Some target_text)))) = []
   \<and> JSON_parse node_posix broken_text = None
   \<and> exit_code (install node_posix linux_host (example_disk template_text (Some broken_text))) = 1
   \<and> written (final (install node_posix linux_host
          (example_disk template_text (Some broken_text)))) = []
   \<and> disk (final (install node_posix linux_host (example_disk template_text (Some broken_text))))
       = example_disk template_text (Some broken_text)
   \<and> readFile (example_disk template_text None) config_path = Inl (SystemError ''ENOENT'')
   \<and> read_existing node_posix (example_disk template_text None) config_path = Inr empty_config
   \<and> exit_code (install node_posix linux_host (example_disk template_text None)) = 0
   \<and> written (final (install node_posix linux_host (example_disk template_text None)))
       = [(config_path, json_stringify rendered_doc)]"
proof -
  have stringify: "JSON_stringify node_posix = json_stringify"
    by (simp add: node_posix_def)
  note thm1 = parse_failures_abort_before_writing[where P = node_posix and h = linux_host
      and fs = "example_disk broken_text (Some target_text)" and env = Map.empty
      and template = broken_text, THEN conjunct1, rule_format]
  note thm2 = parse_failures_abort_before_writing[where P = node_posix and h = linux_host
      and fs = "example_disk template_text (Some broken_text)" and g = rendered_doc
      and path = config_path and existing = broken_text,
      THEN conjunct2, THEN conjunct1, rule_format]
  note thm3 = parse_failures_abort_before_writing[where P = node_posix and h = linux_host
      and fs = "example_disk template_text None" and g = rendered_doc
      and path = config_path and merged = rendered_doc,
      THEN conjunct2, THEN conjunct2, rule_format]
  from thm1[OF conjI[OF example_loadEnv conjI[OF example_read_template broken_render]]]
    thm2[OF conjI[OF generated_pair[OF example_generated] conjI[OF example_path
          conjI[OF example_mkdir conjI[OF example_read_broken broken_parse]]]]]
    thm3[OF conjI[OF generated_pair[OF example_generated] conjI[OF example_path
          conjI[OF example_mkdir conjI[OF example_read_absent
            conjI[OF example_merge_absent example_no_fault]]]]]]
    broken_render broken_parse example_read_absent
  show ?thesis by (simp add: stringify)
qed

subsection \<open>The parameter source\<close>

text \<open>
  C7. When the \<^verbatim>\<open>.env\<close> file does not exist, the run prints one warning and goes on
  with the empty environment, in which every parameter has its built-in default; when
  reading it fails with any other error, the run exits with 1 after printing the error
  and writes nothing.
\<close>

theorem missing_env_is_a_warning:
  "(readFile fs (path_join P (rootDir h) ''.env'') = Inl (SystemError ''ENOENT'')
    \<longrightarrow> generated_config P h fs =
          generate P h Map.empty
            (say (WARNING ''.env file not found, using defaults'')
              (say (INFO ''Loading configuration...'')
                \<lparr>disk = fs, written = [], console = []\<rparr>)))
   \<and> debug (resolve P h Map.empty) = ''false''
   \<and> installDir (resolve P h Map.empty) = homedir h
   \<and> hubspotPath (resolve P h Map.empty) = path_join P (homedir h) ''hubspot-mcp-railway''
   \<and> sharepointPath (resolve P h Map.empty) = path_join P (homedir h) ''sharepoint-mcp-railway''
   \<and> asanaPath (resolve P h Map.empty) = path_join P (homedir h) ''asana-mcp-railway''
   \<and> hubspotUrl (resolve P h Map.empty)
       = ''https://hubspot-mcp-railway-production-386b.up.railway.app/mcp''
   \<and> sharepointUrl (resolve P h Map.empty)
       = ''https://sharepoint-mcp-railway-production.up.railway.app/mcp''
   \<and> asanaUrl (resolve P h Map.empty)
       = ''https://asana-mcp-railway-production.up.railway.app/sse''
   \<and> (readFile fs (path_join P (rootDir h) ''.env'') = Inl e \<and> err_code e \<noteq> Some ''ENOENT''
      \<longrightarrow> exit_code (install P h fs) = 1
          \<and> written (final (install P h fs)) = []
          \<and> disk (final (install P h fs)) = fs
          \<and> console (final (install P h fs)) = [INFO ''Loading configuration...'', FAILED e])"
proof -
  have absent: "readFile fs (path_join P (rootDir h) ''.env'') = Inl (SystemError ''ENOENT'')
    \<longrightarrow> generated_config P h fs =
          generate P h Map.empty
            (say (WARNING ''.env file not found, using defaults'')
              (say (INFO ''Loading configuration...'')
                \<lparr>disk = fs, written = [], console = []\<rparr>))"
    by (simp add: generated_config_def loadEnv_def Let_def)
  have fatal: "readFile fs (path_join P (rootDir h) ''.env'') = Inl e \<and> err_code e \<noteq> Some ''ENOENT''
      \<longrightarrow> exit_code (install P h fs) = 1
          \<and> written (final (install P h fs)) = []
          \<and> disk (final (install P h fs)) = fs
          \<and> console (final (install P h fs)) = [INFO ''Loading configuration...'', FAILED e]"
    by (simp add: install_def generated_config_def loadEnv_def Let_def say_def failed_def)
  have defaults: "debug (resolve P h Map.empty) = ''false''"
    "installDir (resolve P h Map.empty) = homedir h"
    "hubspotPath (resolve P h Map.empty) = path_join P (homedir h) ''hubspot-mcp-railway''"
    "sharepointPath (resolve P h Map.empty) = path_join P (homedir h) ''sharepoint-mcp-railway''"
    "asanaPath (resolve P h Map.empty) = path_join P (homedir h) ''asana-mcp-railway''"
    "hubspotUrl (resolve P h Map.empty)
       = ''https://hubspot-mcp-railway-production-386b.up.railway.app/mcp''"
    "sharepointUrl (resolve P h Map.empty)
       = ''https://sharepoint-mcp-railway-production.up.railway.app/mcp''"
    "asanaUrl (resolve P h Map.empty)
       = ''https://asana-mcp-railway-production.up.railway.app/sse''"
    by (simp_all add: resolve_def or_default_def Let_def)
  from absent fatal defaults show ?thesis by blast
qed

theorem missing_env_is_a_warning_witness:
  "readFile (example_disk template_text None)
      (path_join node_posix (rootDir linux_host) ''.env'') = Inl (SystemError ''ENOENT'')
   \<and> generated_config node_posix linux_host (example_disk template_text None) =
        generate node_posix linux_host Map.empty
          (say (WARNING ''.env file not found, using defaults'')
            (say (INFO ''Loading configuration...'')
              \<lparr>disk = example_disk template_text None, written = [], console = []\<rparr>))
   \<and> exit_code (install node_posix linux_host (example_disk template_text None)) = 0
   \<and> readFile unreadable_env_disk (path_join node_posix (rootDir linux_host) ''.env'')
       = Inl (SystemError ''EACCES'')
   \<and> exit_code (install node_posix linux_host unreadable_env_disk) = 1
   \<and> written (final (install node_posix linux_host unreadable_env_disk)) = []
   \<and> console (final (install node_posix linux_host unreadable_env_disk))
       = [INFO ''Loading configuration...'', FAILED (SystemError ''EACCES'')]"
proof -
  note absent = missing_env_is_a_warning[where P = node_posix and h = linux_host
      and fs = "example_disk template_text None", THEN conjunct1, rule_format]
  note fatal = missing_env_is_a_warning[where P = node_posix and h = linux_host
      and fs = unreadable_env_disk and e = "SystemError ''EACCES''",
      THEN conjunct2, THEN conjunct2, THEN conjunct2, THEN conjunct2, THEN conjunct2,
      THEN conjunct2, THEN conjunct2, THEN conjunct2, THEN conjunct2, rule_format]
  have code: "err_code (SystemError ''EACCES'') \<noteq> Some ''ENOENT''" by simp
  from absent[OF example_env_absent] fatal[OF conjI[OF unreadable_env code]]
    example_env_absent unreadable_env example_run_absent
  show ?thesis by simp
qed

lemma or_default_absent: "env k = None \<Longrightarrow> or_default env k d = d"
  by (simp add: or_default_def)

subsection \<open>Lines of the parameter source\<close>

lemma dropWhile_blank: "\<forall>c\<in>set blank. P c \<Longrightarrow> dropWhile P (blank @ s) = dropWhile P s"
  by (induction blank) auto

lemma trim_padded:
  assumes "k \<noteq> []" "\<not> is_space (hd k)" "\<not> is_space (last k)"
    and "\<forall>c\<in>set lead. is_space c" "\<forall>c\<in>set trail. is_space c"
  shows "trim (lead @ k @ trail) = k"
proof -
  from assms(1,2) have front: "dropWhile is_space (k @ trail) = k @ trail"
    by (cases k) auto
  from assms(1,3) have rear: "dropWhile is_space (rev k) = rev k"
    by (cases k rule: rev_cases) auto
  have "trim (lead @ k @ trail) = rev (dropWhile is_space (rev (k @ trail)))"
    using assms(4) by (simp add: trim_def dropWhile_blank front)
  also have "\<dots> = rev (dropWhile is_space (rev trail @ rev k))" by simp
  also have "\<dots> = rev (dropWhile is_space (rev k))"
    using assms(5) by (simp add: dropWhile_blank)
  finally show ?thesis by (simp add: rear)
qed

lemma split_on_first:
  "sep \<notin> set k \<Longrightarrow> split_on sep (k @ sep # rest) = k # split_on sep rest"
  by (induction k) (auto split: list.splits)

lemma trim_Nil: "trim [] = []"
  by (simp add: trim_def)

lemma env_line_empty_value:
  assumes k: "k \<noteq> []" "\<not> is_space (hd k)" "\<not> is_space (last k)" "hd k \<noteq> CHR ''#''"
      "CHR ''='' \<notin> set k" "k \<noteq> ''__proto__''"
    and blank: "\<forall>c\<in>set lead. is_space c" "\<forall>c\<in>set mid. is_space c"
      "\<forall>c\<in>set trail. is_space c"
  shows "env_line env (lead @ k @ mid @ ''='' @ trail) = env(k \<mapsto> [])"
proof -
  have eq_char: "\<not> is_space CHR ''=''" by (simp add: is_space_def)
  have line: "trim (lead @ k @ mid @ CHR ''='' # trail) = k @ mid @ [CHR ''='']"
    using trim_padded[of "k @ mid @ [CHR ''='']" lead trail] k blank eq_char by simp
  from blank(2) have "CHR ''='' \<notin> set mid" using eq_char by auto
  with k(5) have parts: "split_on CHR ''='' (k @ mid @ [CHR ''='']) = [k @ mid, []]"
    using split_on_first[of "CHR ''=''" "k @ mid" "[]"] by simp
  have key: "trim (k @ mid) = k"
    using trim_padded[of k "[]" mid] k blank by simp
  have hash: "\<not> prefix ''#'' (k @ mid @ [CHR ''=''])"
    using k(1,4) by (cases k) auto
  show ?thesis
    using k(1,6) by (simp add: env_line_def Let_def line parts key hash assign_def trim_Nil)
qed

lemma or_default_empty_value:
  "or_default (env(k \<mapsto> [])) k' d = or_default (env(k := None)) k' d"
  by (simp add: or_default_def)

lemma resolve_empty_value: "resolve P h (env(k \<mapsto> [])) = resolve P h (env(k := None))"
  by (simp only: resolve_def or_default_empty_value)

lemma or_default_nonempty: "or_default env k d = [] \<Longrightarrow> d = []"
  by (auto simp: or_default_def split: option.splits if_splits)

text \<open>
  C10. For each of the eight keys, a line of the parameter source that gives the key a
  value of white space only (with any white space around the key) stores the empty
  string, and the parameters resolved from it, and so the rendered text, are those of
  the source without the key; no URL and no debug flag is ever the empty string, and a
  directory or project path is empty only when its built-in default is.
\<close>

theorem empty_value_is_default:
  assumes "k \<in> set param_keys"
    and "\<forall>c\<in>set lead. is_space c" and "\<forall>c\<in>set mid. is_space c"
    and "\<forall>c\<in>set trail. is_space c"
  shows "env_line env (lead @ k @ mid @ ''='' @ trail) = env(k \<mapsto> [])
         \<and> resolve P h (env(k \<mapsto> [])) = resolve P h (env(k := None))
         \<and> render (resolve P h (env(k \<mapsto> []))) template
             = render (resolve P h (env(k := None))) template
         \<and> hubspotUrl (resolve P h env) \<noteq> [] \<and> sharepointUrl (resolve P h env) \<noteq> []
         \<and> asanaUrl (resolve P h env) \<noteq> [] \<and> debug (resolve P h env) \<noteq> []
         \<and> (installDir (resolve P h env) = [] \<longrightarrow> homedir h = [])
         \<and> (hubspotPath (resolve P h env) = [] \<longrightarrow>
               path_join P (installDir (resolve P h env)) ''hubspot-mcp-railway'' = [])
         \<and> (sharepointPath (resolve P h env) = [] \<longrightarrow>
               path_join P (installDir (resolve P h env)) ''sharepoint-mcp-railway'' = [])
         \<and> (asanaPath (resolve P h env) = [] \<longrightarrow>
               path_join P (installDir (resolve P h env)) ''asana-mcp-railway'' = [])"
proof -
  from assms(1) have k: "k \<noteq> []" "\<not> is_space (hd k)" "\<not> is_space (last k)" "hd k \<noteq> CHR ''#''"
      "CHR ''='' \<notin> set k" "k \<noteq> ''__proto__''"
    by (auto simp: param_keys_def is_space_def)
  have line: "env_line env (lead @ k @ mid @ ''='' @ trail) = env(k \<mapsto> [])"
    by (rule env_line_empty_value[OF k assms(2-4)])
  have nonempty: "hubspotUrl (resolve P h env) \<noteq> []" "sharepointUrl (resolve P h env) \<noteq> []"
    "asanaUrl (resolve P h env) \<noteq> []" "debug (resolve P h env) \<noteq> []"
    "installDir (resolve P h env) = [] \<longrightarrow> homedir h = []"
    "hubspotPath (resolve P h env) = [] \<longrightarrow>
       path_join P (installDir (resolve P h env)) ''hubspot-mcp-railway'' = []"
    "sharepointPath (resolve P h env) = [] \<longrightarrow>
       path_join P (installDir (resolve P h env)) ''sharepoint-mcp-railway'' = []"
    "asanaPath (resolve P h env) = [] \<longrightarrow>
       path_join P (installDir (resolve P h env)) ''asana-mcp-railway'' = []"
    by (auto simp: resolve_def Let_def dest: or_default_nonempty)
  from line nonempty show ?thesis
    by (simp add: resolve_empty_value)
qed

theorem empty_value_is_default_witness:
  "env_line [''DEBUG'' \<mapsto> ''true''] ('' DEBUG ='' @ [CHR 0x20, CHR 0x09]) = [''DEBUG'' \<mapsto> []]
   \<and> resolve node_posix linux_host [''DEBUG'' \<mapsto> []] = resolve node_posix linux_host Map.empty
   \<and> debug (resolve node_posix linux_host [''DEBUG'' \<mapsto> []]) = ''false''
   \<and> render (resolve node_posix linux_host [''DEBUG'' \<mapsto> []]) template_text
       = render (resolve node_posix linux_host Map.empty) template_text"
proof -
  have key: "''DEBUG'' \<in> set param_keys" by (simp add: param_keys_def)
  have lead: "\<forall>c\<in>set '' ''. is_space c" and mid: "\<forall>c\<in>set '' ''. is_space c"
    and trail: "\<forall>c\<in>set [CHR 0x20, CHR 0x09]. is_space c"
    by (simp_all add: is_space_def)
  have omitted: "[''DEBUG'' \<mapsto> ''true''](''DEBUG'' := None) = Map.empty"
    "[''DEBUG'' \<mapsto> ''true''](''DEBUG'' \<mapsto> []) = [''DEBUG'' \<mapsto> []]" by simp_all
  have default: "debug (resolve node_posix linux_host Map.empty) = ''false''"
    by (simp add: resolve_def or_default_def Let_def)
  from empty_value_is_default[OF key lead mid trail, where env = "[''DEBUG'' \<mapsto> ''true'']"
      and P = node_posix and h = linux_host and template = template_text] default
  show ?thesis by (simp add: omitted)
qed

subsection \<open>A second pass of the substitution\<close>

lemma placeholder_hole:
  assumes "tok \<in> set placeholders"
  shows "\<exists>name. tok = hole name \<and> brace_free name"
proof -
  define names where "names = [''ORCHESTRATOR_PATH'', ''HUBSPOT_PROJECT_PATH'',
      ''SHAREPOINT_PROJECT_PATH'', ''ASANA_PROJECT_PATH'', ''HUBSPOT_MCP_URL'',
      ''SHAREPOINT_MCP_URL'', ''ASANA_MCP_URL'', ''DEBUG'']"
  have eq: "placeholders = map hole names"
    by (simp add: placeholders_def hole_def names_def)
  have free: "\<forall>name\<in>set names. brace_free name"
    by (simp add: brace_free_def names_def)
  from assms have "tok \<in> hole ` set names" unfolding eq by simp
  with free show ?thesis by blast
qed

lemma expand_plain: "CHR ''$'' \<notin> set r \<Longrightarrow> expand m passed rest r = r"
  by (induction m passed rest r rule: expand.induct) auto

lemma name_prefix_free:
  "CHR ''}'' \<notin> set a \<Longrightarrow> CHR ''}'' \<notin> set b \<Longrightarrow> prefix (a @ CHR ''}'' # u) (b @ CHR ''}'' # v)
   \<Longrightarrow> a = b"
proof (induction a arbitrary: b)
  case Nil
  then show ?case by (cases b) auto
next
  case (Cons x a)
  then show ?case by (cases b) auto
qed

lemma hole_prefix_free:
  assumes "brace_free a" "brace_free b" "prefix (hole a) (hole b @ x)"
  shows "a = b"
  using assms name_prefix_free[of a b "''}''" "CHR ''}'' # x"]
  by (simp add: hole_def brace_free_def)

text \<open>After its first character, a placeholder has no place where two opening braces
  begin, whatever follows it.\<close>

lemma hole_tail_closed:
  assumes "brace_free b" "suffix w (CHR ''{'' # b @ ''}}'')" "w \<noteq> []"
  shows "\<not> prefix ''{{'' (w @ x)"
proof -
  from assms(2) consider "w = CHR ''{'' # b @ ''}}''" | "suffix w (b @ ''}}'')"
    by (auto simp: suffix_Cons)
  then show ?thesis
  proof cases
    case 1
    with assms(1) show ?thesis by (cases b) (auto simp: brace_free_def)
  next
    case 2
    then have "set w \<subseteq> set (b @ ''}}'')" by (rule set_mono_suffix)
    with assms(1,3) show ?thesis by (cases w) (auto simp: brace_free_def)
  qed
qed

lemma replace_from_skip:
  assumes "\<And>w. suffix w u \<Longrightarrow> w \<noteq> [] \<Longrightarrow> \<not> prefix tok (w @ rest)"
  shows "replace_from tok r passed (u @ rest) = u @ replace_from tok r (passed @ u) rest"
  using assms
proof (induction u arbitrary: passed)
  case Nil
  then show ?case by simp
next
  case (Cons c u)
  have "\<not> prefix tok ((c # u) @ rest)" by (rule Cons.prems) simp_all
  moreover have "replace_from tok r (passed @ [c]) (u @ rest)
      = u @ replace_from tok r ((passed @ [c]) @ u) rest"
    by (rule Cons.IH) (simp add: Cons.prems suffix_Cons)
  ultimately show ?case by simp
qed

lemma well_formed_skip:
  assumes "\<And>w. suffix w u \<Longrightarrow> w \<noteq> [] \<Longrightarrow> \<not> prefix ''{{'' (w @ x)"
  shows "well_formed (u @ x) = well_formed x"
  using assms
proof (induction u)
  case Nil
  then show ?case by simp
next
  case (Cons c u)
  have "\<not> prefix ''{{'' ((c # u) @ x)" by (rule Cons.prems) simp_all
  moreover have "well_formed (u @ x) = well_formed x"
    by (rule Cons.IH) (simp add: Cons.prems suffix_Cons)
  ultimately show ?case by auto
qed

lemma occurs_skip:
  assumes "\<And>w. suffix w u \<Longrightarrow> w \<noteq> [] \<Longrightarrow> \<not> prefix t (w @ x)"
  shows "occurs t (u @ x) = occurs t x"
  using assms
proof (induction u)
  case Nil
  then show ?case by simp
next
  case (Cons c u)
  have "\<not> prefix t ((c # u) @ x)" by (rule Cons.prems) simp_all
  moreover have "occurs t (u @ x) = occurs t x"
    by (rule Cons.IH) (simp add: Cons.prems suffix_Cons)
  ultimately show ?case by simp
qed


lemma hole_open: "prefix ''{{'' (hole a)"
  by (simp add: hole_def)

lemma plain_skip_well_formed: "CHR ''{'' \<notin> set r \<Longrightarrow> well_formed (r @ x) = well_formed x"
proof (rule well_formed_skip)
  fix w assume "CHR ''{'' \<notin> set r" "suffix w r" "w \<noteq> []"
  then show "\<not> prefix ''{{'' (w @ x)"
    using set_mono_suffix[of w r] by (cases w) auto
qed

lemma plain_skip_occurs:
  "CHR ''{'' \<notin> set r \<Longrightarrow> occurs (hole a) (r @ x) = occurs (hole a) x"
proof (rule occurs_skip)
  fix w assume "CHR ''{'' \<notin> set r" "suffix w r" "w \<noteq> []"
  then show "\<not> prefix (hole a) (w @ x)"
    using set_mono_suffix[of w r] by (cases w) (auto simp: hole_def)
qed

lemma hole_tail_no_match:
  assumes "brace_free b" "suffix w (CHR ''{'' # b @ ''}}'')" "w \<noteq> []"
  shows "\<not> prefix (hole a) (w @ x)"
proof
  assume "prefix (hole a) (w @ x)"
  with hole_open[of a] have "prefix ''{{'' (w @ x)" by (rule prefix_order.trans)
  with hole_tail_closed[OF assms] show False by blast
qed

lemma hole_skip_replace:
  assumes "brace_free a" "brace_free b" "a \<noteq> b"
  shows "replace_from (hole a) r passed (hole b @ rest)
         = hole b @ replace_from (hole a) r (passed @ hole b) rest"
proof -
  have first: "\<not> prefix (hole a) (hole b @ rest)"
    using hole_prefix_free[OF assms(1,2)] assms(3) by blast
  have "replace_from (hole a) r (passed @ ''{'') ((CHR ''{'' # b @ ''}}'') @ rest)
        = (CHR ''{'' # b @ ''}}'') @ replace_from (hole a) r ((passed @ ''{'') @ CHR ''{'' # b @ ''}}'') rest"
    by (rule replace_from_skip) (rule hole_tail_no_match[OF assms(2)])
  with first show ?thesis by (simp add: hole_def)
qed

lemma hole_skip_well_formed:
  assumes "hole b \<in> set placeholders" "brace_free b"
  shows "well_formed (hole b @ x) = well_formed x"
proof -
  have "well_formed ((CHR ''{'' # b @ ''}}'') @ x) = well_formed x"
    by (rule well_formed_skip) (rule hole_tail_closed[OF assms(2)])
  moreover have "list_ex (\<lambda>tok. prefix tok (hole b @ x)) placeholders"
    unfolding list_ex_iff using assms(1) prefixI[of "hole b @ x" "hole b" x] by blast
  ultimately show ?thesis by (simp add: hole_def)
qed

lemma hole_skip_occurs:
  assumes "brace_free a" "brace_free b"
  shows "occurs (hole a) (hole b @ x) = (a = b \<or> occurs (hole a) x)"
proof -
  have tail: "occurs (hole a) ((CHR ''{'' # b @ ''}}'') @ x) = occurs (hole a) x"
    by (rule occurs_skip) (rule hole_tail_no_match[OF assms(2)])
  have first: "prefix (hole a) (hole b @ x) = (a = b)"
    using hole_prefix_free[OF assms] by auto
  have "occurs (hole a) (hole b @ x)
        = (prefix (hole a) (hole b @ x) \<or> occurs (hole a) ((CHR ''{'' # b @ ''}}'') @ x))"
    by (simp add: hole_def)
  with tail first show ?thesis by simp
qed

lemma replace_from_match:
  "tok \<noteq> [] \<Longrightarrow> replace_from tok r passed (tok @ rest)
     = expand tok passed rest r @ replace_from tok r (passed @ tok) rest"
  by (cases tok) simp_all

lemma replace_from_char:
  assumes "\<not> prefix ''{{'' (c # cs)"
  shows "replace_from (hole a) r passed (c # cs) = c # replace_from (hole a) r (passed @ [c]) cs"
proof -
  have "\<not> prefix (hole a) (c # cs)"
  proof
    assume "prefix (hole a) (c # cs)"
    with hole_open[of a] have "prefix ''{{'' (c # cs)" by (rule prefix_order.trans)
    with assms show False by blast
  qed
  then show ?thesis by simp
qed

lemma replace_from_head:
  assumes "\<not> prefix ''{'' cs"
  shows "\<not> prefix ''{'' (replace_from (hole a) r passed cs)"
proof (cases cs)
  case Nil
  then show ?thesis by simp
next
  case (Cons d ds)
  with assms have "d \<noteq> CHR ''{''" by auto
  then have "\<not> prefix (hole a) (d # ds)" by (auto simp: hole_def)
  with Cons \<open>d \<noteq> CHR ''{''\<close> show ?thesis by simp
qed

lemma well_formed_drop: "well_formed s \<Longrightarrow> well_formed (drop n s)"
  by (induction s arbitrary: n) (auto simp: drop_Cons split: nat.splits)

lemma well_formed_cases:
  assumes "well_formed s"
  obtains (empty) "s = []"
  | (placeholder) tok rest where "tok \<in> set placeholders" "s = tok @ rest" "well_formed rest"
  | (char) c cs where "s = c # cs" "\<not> prefix ''{{'' s" "well_formed cs"
proof (cases s)
  case Nil
  then show ?thesis by (rule empty)
next
  case (Cons c cs)
  show ?thesis
  proof (cases "prefix ''{{'' s")
    case True
    with assms Cons obtain tok where tok: "tok \<in> set placeholders" "prefix tok s"
      by (auto simp: list_ex_iff)
    then obtain rest where rest: "s = tok @ rest" by (auto simp: prefix_def)
    then have "rest = drop (length tok) s" by simp
    with assms have "well_formed rest" by (simp add: well_formed_drop)
    with tok rest show ?thesis by (auto intro: placeholder)
  next
    case False
    with assms Cons show ?thesis by (auto intro: char)
  qed
qed

lemma occurs_append_left: "occurs t x \<Longrightarrow> occurs t (u @ x)"
  by (induction u) auto


text \<open>One call of \<^verbatim>\<open>replace\<close> on a well-formed text: the text stays well formed, its
  placeholder is gone, and no other placeholder appears that was not there.\<close>

lemma replace_pass:
  assumes a: "brace_free a" "hole a \<in> set placeholders" and r: "plain r"
  shows "well_formed s \<Longrightarrow>
         well_formed (replace_from (hole a) r passed s)
         \<and> (\<forall>t\<in>set placeholders. occurs t (replace_from (hole a) r passed s)
               \<longrightarrow> t \<noteq> hole a \<and> occurs t s)"
proof (induction s arbitrary: passed rule: length_induct)
  case (1 s)
  from r have r_open: "CHR ''{'' \<notin> set r" and r_dollar: "CHR ''$'' \<notin> set r"
    by (simp_all add: plain_def)
  from \<open>well_formed s\<close> show ?case
  proof (cases rule: well_formed_cases)
    case empty
    then show ?thesis by (auto simp: hole_def)
  next
    case (placeholder tok rest)
    from placeholder_hole[OF placeholder(1)] obtain b where
      b: "tok = hole b" "brace_free b" by blast
    have "length rest < length s" using placeholder(2) b(1) by (simp add: hole_def)
    with 1(1) placeholder(3) have IH: "well_formed (replace_from (hole a) r p rest)
         \<and> (\<forall>t\<in>set placeholders. occurs t (replace_from (hole a) r p rest)
               \<longrightarrow> t \<noteq> hole a \<and> occurs t rest)" for p
      by blast
    show ?thesis
    proof (cases "a = b")
      case True
      have eq: "replace_from (hole a) r passed s
          = r @ replace_from (hole a) r (passed @ hole a) rest"
        using placeholder(2) b(1) True replace_from_match[of "hole a" r passed rest]
        by (simp add: expand_plain[OF r_dollar]) (simp add: hole_def)
      show ?thesis
      proof (intro conjI ballI impI)
        show "well_formed (replace_from (hole a) r passed s)"
          using IH by (simp add: eq plain_skip_well_formed[OF r_open])
      next
        fix t assume t: "t \<in> set placeholders" "occurs t (replace_from (hole a) r passed s)"
        from placeholder_hole[OF t(1)] obtain c where c: "t = hole c" by blast
        from t(2) have "occurs t (replace_from (hole a) r (passed @ hole a) rest)"
          by (simp add: eq c plain_skip_occurs[OF r_open])
        with IH t(1) have "t \<noteq> hole a" "occurs t rest" by blast+
        then show "t \<noteq> hole a" "occurs t s"
          by (simp_all add: placeholder(2) occurs_append_left)
      qed
    next
      case False
      have eq: "replace_from (hole a) r passed s
          = hole b @ replace_from (hole a) r (passed @ hole b) rest"
        using placeholder(2) b(1) hole_skip_replace[OF a(1) b(2) False] by simp
      have member: "hole b \<in> set placeholders" using placeholder(1) b(1) by simp
      show ?thesis
      proof (intro conjI ballI impI)
        show "well_formed (replace_from (hole a) r passed s)"
          using IH by (simp add: eq hole_skip_well_formed[OF member b(2)])
      next
        fix t assume t: "t \<in> set placeholders" "occurs t (replace_from (hole a) r passed s)"
        from placeholder_hole[OF t(1)] obtain c where c: "t = hole c" "brace_free c" by blast
        from t(2) have "c = b \<or> occurs t (replace_from (hole a) r (passed @ hole b) rest)"
          by (simp add: eq c(1) hole_skip_occurs[OF c(2) b(2)])
        then have "t \<noteq> hole a \<and> occurs t s"
        proof
          assume "c = b"
          then have "t = hole b" using c(1) by simp
          moreover have "hole b \<noteq> hole a" using False by (simp add: hole_def)
          moreover have "occurs (hole b) s"
            using placeholder(2) b(1) by (cases "hole b") (simp_all add: hole_def)
          ultimately show ?thesis by simp
        next
          assume "occurs t (replace_from (hole a) r (passed @ hole b) rest)"
          with IH t(1) have "t \<noteq> hole a" "occurs t rest" by blast+
          then show ?thesis by (simp add: placeholder(2) occurs_append_left)
        qed
        then show "t \<noteq> hole a" "occurs t s" by simp_all
      qed
    qed
  next
    case (char c cs)
    have "length cs < length s" using char(1) by simp
    with 1(1) char(3) have IH: "well_formed (replace_from (hole a) r p cs)
         \<and> (\<forall>t\<in>set placeholders. occurs t (replace_from (hole a) r p cs)
               \<longrightarrow> t \<noteq> hole a \<and> occurs t cs)" for p
      by blast
    have eq: "replace_from (hole a) r passed s
        = c # replace_from (hole a) r (passed @ [c]) cs"
      using char(1,2) replace_from_char[of c cs a r passed] by simp
    have closed: "\<not> prefix ''{{'' (c # replace_from (hole a) r (passed @ [c]) cs)"
    proof (cases "c = CHR ''{''")
      case True
      with char(1,2) have "\<not> prefix ''{'' cs" by simp
      from replace_from_head[OF this] True show ?thesis by simp
    next
      case False
      then show ?thesis by simp
    qed
    show ?thesis
    proof (intro conjI ballI impI)
      show "well_formed (replace_from (hole a) r passed s)"
        unfolding eq using IH[of "passed @ [c]"] closed by auto
    next
      fix t assume t: "t \<in> set placeholders" "occurs t (replace_from (hole a) r passed s)"
      from placeholder_hole[OF t(1)] obtain d where d: "t = hole d" by blast
      have "\<not> prefix t (c # replace_from (hole a) r (passed @ [c]) cs)"
      proof
        assume "prefix t (c # replace_from (hole a) r (passed @ [c]) cs)"
        then have "prefix (hole d) (c # replace_from (hole a) r (passed @ [c]) cs)"
          by (simp add: d)
        with hole_open[of d]
        have "prefix ''{{'' (c # replace_from (hole a) r (passed @ [c]) cs)"
          by (rule prefix_order.trans)
        with closed show False by blast
      qed
      with t(2) have "occurs t (replace_from (hole a) r (passed @ [c]) cs)"
        by (simp add: eq)
      with IH t(1) have "t \<noteq> hole a" "occurs t cs" by blast+
      then show "t \<noteq> hole a" "occurs t s" by (simp_all add: char(1))
    qed
  qed
qed


lemma replace_from_absent:
  "\<not> occurs tok s \<Longrightarrow> replace_from tok r passed s = s"
  by (induction tok r passed s rule: replace_from.induct) auto

lemma replace_all_absent: "\<not> occurs tok s \<Longrightarrow> replace_all tok r s = s"
  by (simp add: replace_all_def replace_from_absent)

lemma render_absent:
  "list_all (\<lambda>tok. \<not> occurs tok s) placeholders \<Longrightarrow> render p s = s"
  by (simp add: render_def placeholders_def replace_all_absent)

lemma replace_all_pass:
  assumes "tok \<in> set placeholders" "plain r" "well_formed s"
  shows "well_formed (replace_all tok r s)
         \<and> (\<forall>t\<in>set placeholders. occurs t (replace_all tok r s) \<longrightarrow> t \<noteq> tok \<and> occurs t s)"
proof -
  from placeholder_hole[OF assms(1)] obtain a where a: "tok = hole a" "brace_free a" by blast
  from assms(1) a(1) have "hole a \<in> set placeholders" by simp
  from replace_pass[OF a(2) this assms(2,3), of "[]"] show ?thesis
    by (simp add: replace_all_def a(1))
qed

lemma escape_backslashes_set:
  "set (replace_from [CHR 0x5C] [CHR 0x5C, CHR 0x5C] passed v) \<subseteq> insert (CHR 0x5C) (set v)"
  by (induction "[CHR 0x5C]" "[CHR 0x5C, CHR 0x5C]" passed v rule: replace_from.induct) auto

lemma escape_backslashes_plain: "plain v \<Longrightarrow> plain (escape_backslashes v)"
  using escape_backslashes_set[of "[]" v]
  by (auto simp: plain_def escape_backslashes_def replace_all_def)

text \<open>After the eight calls no placeholder is left in a well-formed template.\<close>

lemma render_clears:
  assumes wf: "well_formed template"
    and plain: "list_all plain
      [orchestratorPath p, hubspotPath p, sharepointPath p, asanaPath p,
       hubspotUrl p, sharepointUrl p, asanaUrl p, debug p]"
  shows "list_all (\<lambda>tok. \<not> occurs tok (render p template)) placeholders"
proof -
  define t1 where "t1 = replace_all ''{{ORCHESTRATOR_PATH}}''
      (escape_backslashes (orchestratorPath p)) template"
  define t2 where "t2 = replace_all ''{{HUBSPOT_PROJECT_PATH}}''
      (escape_backslashes (hubspotPath p)) t1"
  define t3 where "t3 = replace_all ''{{SHAREPOINT_PROJECT_PATH}}''
      (escape_backslashes (sharepointPath p)) t2"
  define t4 where "t4 = replace_all ''{{ASANA_PROJECT_PATH}}''
      (escape_backslashes (asanaPath p)) t3"
  define t5 where "t5 = replace_all ''{{HUBSPOT_MCP_URL}}'' (hubspotUrl p) t4"
  define t6 where "t6 = replace_all ''{{SHAREPOINT_MCP_URL}}'' (sharepointUrl p) t5"
  define t7 where "t7 = replace_all ''{{ASANA_MCP_URL}}'' (asanaUrl p) t6"
  define t8 where "t8 = replace_all ''{{DEBUG}}'' (debug p) t7"
  have rendered: "render p template = t8"
    by (simp add: render_def t1_def t2_def t3_def t4_def t5_def t6_def t7_def t8_def)
  note member = placeholders_def
  from plain have v: "plain (escape_backslashes (orchestratorPath p))"
    "plain (escape_backslashes (hubspotPath p))" "plain (escape_backslashes (sharepointPath p))"
    "plain (escape_backslashes (asanaPath p))" "plain (hubspotUrl p)" "plain (sharepointUrl p)"
    "plain (asanaUrl p)" "plain (debug p)"
    by (simp_all add: escape_backslashes_plain)
  have s1: "well_formed t1 \<and> (\<forall>t\<in>set placeholders. occurs t t1
      \<longrightarrow> t \<noteq> ''{{ORCHESTRATOR_PATH}}'' \<and> occurs t template)"
    unfolding t1_def by (rule replace_all_pass[OF _ v(1) wf]) (simp add: member)
  then have s2: "well_formed t2 \<and> (\<forall>t\<in>set placeholders. occurs t t2
      \<longrightarrow> t \<noteq> ''{{HUBSPOT_PROJECT_PATH}}'' \<and> occurs t t1)"
    unfolding t2_def by (intro replace_all_pass[OF _ v(2)]) (simp_all add: member)
  then have s3: "well_formed t3 \<and> (\<forall>t\<in>set placeholders. occurs t t3
      \<longrightarrow> t \<noteq> ''{{SHAREPOINT_PROJECT_PATH}}'' \<and> occurs t t2)"
    unfolding t3_def by (intro replace_all_pass[OF _ v(3)]) (simp_all add: member)
  then have s4: "well_formed t4 \<and> (\<forall>t\<in>set placeholders. occurs t t4
      \<longrightarrow> t \<noteq> ''{{ASANA_PROJECT_PATH}}'' \<and> occurs t t3)"
    unfolding t4_def by (intro replace_all_pass[OF _ v(4)]) (simp_all add: member)
  then have s5: "well_formed t5 \<and> (\<forall>t\<in>set placeholders. occurs t t5
      \<longrightarrow> t \<noteq> ''{{HUBSPOT_MCP_URL}}'' \<and> occurs t t4)"
    unfolding t5_def by (intro replace_all_pass[OF _ v(5)]) (simp_all add: member)
  then have s6: "well_formed t6 \<and> (\<forall>t\<in>set placeholders. occurs t t6
      \<longrightarrow> t \<noteq> ''{{SHAREPOINT_MCP_URL}}'' \<and> occurs t t5)"
    unfolding t6_def by (intro replace_all_pass[OF _ v(6)]) (simp_all add: member)
  then have s7: "well_formed t7 \<and> (\<forall>t\<in>set placeholders. occurs t t7
      \<longrightarrow> t \<noteq> ''{{ASANA_MCP_URL}}'' \<and> occurs t t6)"
    unfolding t7_def by (intro replace_all_pass[OF _ v(7)]) (simp_all add: member)
  then have s8: "well_formed t8 \<and> (\<forall>t\<in>set placeholders. occurs t t8
      \<longrightarrow> t \<noteq> ''{{DEBUG}}'' \<and> occurs t t7)"
    unfolding t8_def by (intro replace_all_pass[OF _ v(8)]) (simp_all add: member)
  have "\<not> occurs t t8" if t: "t \<in> set placeholders" for t
  proof
    assume "occurs t t8"
    with s8 t have "t \<noteq> ''{{DEBUG}}''" "occurs t t7" by blast+
    moreover from this s7 t have "t \<noteq> ''{{ASANA_MCP_URL}}''" "occurs t t6" by blast+
    moreover from this s6 t have "t \<noteq> ''{{SHAREPOINT_MCP_URL}}''" "occurs t t5" by blast+
    moreover from this s5 t have "t \<noteq> ''{{HUBSPOT_MCP_URL}}''" "occurs t t4" by blast+
    moreover from this s4 t have "t \<noteq> ''{{ASANA_PROJECT_PATH}}''" "occurs t t3" by blast+
    moreover from this s3 t have "t \<noteq> ''{{SHAREPOINT_PROJECT_PATH}}''" "occurs t t2" by blast+
    moreover from this s2 t have "t \<noteq> ''{{HUBSPOT_PROJECT_PATH}}''" "occurs t t1" by blast+
    moreover from this s1 t have "t \<noteq> ''{{ORCHESTRATOR_PATH}}''" by blast
    ultimately show False using t by (simp add: placeholders_def)
  qed
  then show ?thesis by (simp add: rendered list_all_iff)
qed

text \<open>
  C9, as the script has it. When every two opening braces in a row of the template begin
  one of the eight placeholders, and no parameter value has an opening brace or a dollar
  sign, the rendered text has no placeholder left, and rendering it again with the same
  parameters leaves it unchanged.
\<close>

theorem render_idempotent:
  assumes "well_formed template"
    and "list_all plain
      [orchestratorPath p, hubspotPath p, sharepointPath p, asanaPath p,
       hubspotUrl p, sharepointUrl p, asanaUrl p, debug p]"
  shows "render p (render p template) = render p template"
  by (rule render_absent) (rule render_clears[OF assms])

theorem render_idempotent_witness:
  "well_formed template_text
   \<and> list_all plain (param_values (resolve node_posix linux_host Map.empty))
   \<and> render (resolve node_posix linux_host Map.empty)
         (render (resolve node_posix linux_host Map.empty) template_text)
       = render (resolve node_posix linux_host Map.empty) template_text"
proof -
  have wf: "well_formed template_text"
    by (simp add: template_text_def placeholders_def)
  have resolved: "list_all plain
      [orchestratorPath (resolve node_posix linux_host Map.empty),
       hubspotPath (resolve node_posix linux_host Map.empty),
       sharepointPath (resolve node_posix linux_host Map.empty),
       asanaPath (resolve node_posix linux_host Map.empty),
       hubspotUrl (resolve node_posix linux_host Map.empty),
       sharepointUrl (resolve node_posix linux_host Map.empty),
       asanaUrl (resolve node_posix linux_host Map.empty),
       debug (resolve node_posix linux_host Map.empty)]"
    by (simp add: plain_def resolve_def or_default_def Let_def node_defs linux_host_def)
  have substituted: "list_all plain (param_values (resolve node_posix linux_host Map.empty))"
    using resolved by (simp add: param_values_def escape_backslashes_plain)
  from render_idempotent[OF wf resolved] wf substituted show ?thesis by simp
qed

text \<open>
  C9, as claimed (it is enough that no parameter value contains placeholder syntax),
  fails twice. On a template that nests placeholders, with no brace in any value, the
  first pass leaves \<^verbatim>\<open>{{ASANA_MCP_URL}}\<close> and the second replaces it. On an ordinary
  template, the value \<^verbatim>\<open>x$&\<close> has no brace either, but \<^verbatim>\<open>$&\<close> stands for the matched
  placeholder, so each pass puts one more \<^verbatim>\<open>x\<close> before it.
\<close>

theorem second_pass_counterexample:
  "CHR ''{'' \<notin> set (concat (param_values (resolve node_posix linux_host [''DEBUG'' \<mapsto> ''URL''])))
   \<and> CHR ''}'' \<notin> set (concat (param_values (resolve node_posix linux_host [''DEBUG'' \<mapsto> ''URL''])))
   \<and> render (resolve node_posix linux_host [''DEBUG'' \<mapsto> ''URL'']) nested_template
       = ''{{ASANA_MCP_URL}}''
   \<and> render (resolve node_posix linux_host [''DEBUG'' \<mapsto> ''URL''])
         (render (resolve node_posix linux_host [''DEBUG'' \<mapsto> ''URL'']) nested_template)
       = ''https://asana-mcp-railway-production.up.railway.app/sse''
   \<and> CHR ''{'' \<notin> set (concat (param_values (resolve node_posix linux_host [''DEBUG'' \<mapsto> ''x$&''])))
   \<and> CHR ''}'' \<notin> set (concat (param_values (resolve node_posix linux_host [''DEBUG'' \<mapsto> ''x$&''])))
   \<and> render (resolve node_posix linux_host [''DEBUG'' \<mapsto> ''x$&'']) ''<{{DEBUG}}>''
       = ''<x{{DEBUG}}>''
   \<and> render (resolve node_posix linux_host [''DEBUG'' \<mapsto> ''x$&''])
         (render (resolve node_posix linux_host [''DEBUG'' \<mapsto> ''x$&'']) ''<{{DEBUG}}>'')
       = ''<xx{{DEBUG}}>''"
  by (simp add: string_defs env_defs run_defs node_defs example_defs nested_template_def
      param_values_def)

subsection \<open>The text that replaces a placeholder\<close>

text \<open>
  When no replacement text has a dollar sign, the text already passed plays no part, a
  character that does not open a pair of braces stays, and a placeholder is either
  replaced as a whole or kept as a whole. The chain of calls then treats a text piece by
  piece.
\<close>

lemma replace_from_passed:
  "CHR ''$'' \<notin> set r \<Longrightarrow> replace_from tok r passed s = replace_from tok r passed' s"
proof (induction s arbitrary: passed passed' rule: length_induct)
  case (1 s)
  show ?case
  proof (cases s)
    case Nil
    then show ?thesis by simp
  next
    case (Cons c cs)
    show ?thesis
    proof (cases "tok \<noteq> [] \<and> prefix tok (c # cs)")
      case True
      then have "length (drop (length tok) (c # cs)) < length s"
        using Cons by (cases tok) auto
      with 1 have "replace_from tok r (passed @ tok) (drop (length tok) (c # cs))
          = replace_from tok r (passed' @ tok) (drop (length tok) (c # cs))"
        by blast
      with True Cons 1(2) show ?thesis by (simp add: expand_plain)
    next
      case False
      from 1 Cons have "replace_from tok r (passed @ [c]) cs = replace_from tok r (passed' @ [c]) cs"
        by simp
      with False Cons show ?thesis by auto
    qed
  qed
qed

lemma replace_all_char:
  assumes "CHR ''$'' \<notin> set r" "\<not> prefix ''{{'' (c # cs)"
  shows "replace_all (hole a) r (c # cs) = c # replace_all (hole a) r cs"
  unfolding replace_all_def replace_from_char[OF assms(2)]
  using replace_from_passed[OF assms(1)] by simp

lemma replace_all_keeps_head:
  assumes "\<not> prefix ''{{'' (c # cs)"
  shows "\<not> prefix ''{{'' (c # replace_all (hole a) r cs)"
proof (cases "c = CHR ''{''")
  case True
  with assms have "\<not> prefix ''{'' cs" by simp
  then have "\<not> prefix ''{'' (replace_from (hole a) r [] cs)" by (rule replace_from_head)
  then show ?thesis by (simp add: replace_all_def)
next
  case False
  then show ?thesis by simp
qed

lemma replace_all_other:
  assumes "brace_free a" "brace_free b" "a \<noteq> b" "CHR ''$'' \<notin> set r"
  shows "replace_all (hole a) r (hole b @ rest) = hole b @ replace_all (hole a) r rest"
  unfolding replace_all_def hole_skip_replace[OF assms(1-3)]
  using replace_from_passed[OF assms(4)] by simp

lemma replace_all_same:
  assumes "CHR ''$'' \<notin> set r"
  shows "replace_all (hole a) r (hole a @ rest) = r @ replace_all (hole a) r rest"
proof -
  have "hole a \<noteq> []" by (simp add: hole_def)
  then show ?thesis
    unfolding replace_all_def
    using replace_from_passed[OF assms] by (simp add: replace_from_match expand_plain[OF assms])
qed

lemma replace_all_value:
  assumes "CHR ''{'' \<notin> set v" "CHR ''$'' \<notin> set r"
  shows "replace_all (hole a) r (v @ rest) = v @ replace_all (hole a) r rest"
proof -
  have "replace_from (hole a) r [] (v @ rest) = v @ replace_from (hole a) r ([] @ v) rest"
  proof (rule replace_from_skip)
    fix w assume "suffix w v" "w \<noteq> []"
    then have "hd w \<in> set v" by (metis hd_in_set set_mono_suffix subsetD)
    with assms(1) have "hd w \<noteq> CHR ''{''" by auto
    with \<open>w \<noteq> []\<close> show "\<not> prefix (hole a) (w @ rest)"
      by (cases w) (auto simp: hole_def)
  qed
  then show ?thesis
    unfolding replace_all_def using replace_from_passed[OF assms(2)] by simp
qed

lemma passes_char:
  assumes "\<forall>(a, r) \<in> set ps. CHR ''$'' \<notin> set r" "\<not> prefix ''{{'' (c # cs)"
  shows "fold (\<lambda>(a, r). replace_all (hole a) r) ps (c # cs)
         = c # fold (\<lambda>(a, r). replace_all (hole a) r) ps cs"
  using assms
proof (induction ps arbitrary: cs)
  case Nil
  then show ?case by simp
next
  case (Cons x ps)
  obtain a r where x: "x = (a, r)" by (cases x)
  with Cons.prems have r: "CHR ''$'' \<notin> set r" by simp
  have "\<not> prefix ''{{'' (c # replace_all (hole a) r cs)"
    using Cons.prems(2) by (rule replace_all_keeps_head)
  with Cons.IH[of "replace_all (hole a) r cs"] Cons.prems(1)
  show ?case by (simp add: x replace_all_char[OF r Cons.prems(2)])
qed

lemma passes_value:
  assumes "\<forall>(a, r) \<in> set ps. CHR ''$'' \<notin> set r" "CHR ''{'' \<notin> set v"
  shows "fold (\<lambda>(a, r). replace_all (hole a) r) ps (v @ rest)
         = v @ fold (\<lambda>(a, r). replace_all (hole a) r) ps rest"
  using assms
proof (induction ps arbitrary: rest)
  case Nil
  then show ?case by simp
next
  case (Cons x ps)
  obtain a r where x: "x = (a, r)" by (cases x)
  with Cons.prems have r: "CHR ''$'' \<notin> set r" by simp
  from Cons.IH[of "replace_all (hole a) r rest"] Cons.prems
  show ?case by (simp add: x replace_all_value[OF Cons.prems(2) r])
qed

lemma passes_hole:
  assumes "\<forall>(a, r) \<in> set ps. brace_free a \<and> plain r" "brace_free b"
  shows "fold (\<lambda>(a, r). replace_all (hole a) r) ps (hole b @ rest)
         = (case map_of ps b of None \<Rightarrow> hole b | Some v \<Rightarrow> v)
           @ fold (\<lambda>(a, r). replace_all (hole a) r) ps rest"
  using assms
proof (induction ps arbitrary: rest)
  case Nil
  then show ?case by simp
next
  case (Cons x ps)
  obtain a r where x: "x = (a, r)" by (cases x)
  with Cons.prems have a: "brace_free a" and r: "plain r" by simp_all
  from r have dollar: "CHR ''$'' \<notin> set r" and brace: "CHR ''{'' \<notin> set r"
    by (simp_all add: plain_def)
  from Cons.prems(1) have rest_plain: "\<forall>(a, r) \<in> set ps. CHR ''$'' \<notin> set r"
    by (auto simp: plain_def)
  show ?case
  proof (cases "a = b")
    case True
    with passes_value[OF rest_plain brace, of "replace_all (hole b) r rest"]
    show ?thesis by (simp add: x replace_all_same[OF dollar])
  next
    case False
    with Cons.IH[of "replace_all (hole a) r rest"] Cons.prems
    show ?thesis by (simp add: x replace_all_other[OF a Cons.prems(2) False dollar])
  qed
qed


lemma render_passes:
  "render p template =
     fold (\<lambda>(a, r). replace_all (hole a) r)
       [(''ORCHESTRATOR_PATH'', escape_backslashes (orchestratorPath p)),
        (''HUBSPOT_PROJECT_PATH'', escape_backslashes (hubspotPath p)),
        (''SHAREPOINT_PROJECT_PATH'', escape_backslashes (sharepointPath p)),
        (''ASANA_PROJECT_PATH'', escape_backslashes (asanaPath p)),
        (''HUBSPOT_MCP_URL'', hubspotUrl p),
        (''SHAREPOINT_MCP_URL'', sharepointUrl p),
        (''ASANA_MCP_URL'', asanaUrl p),
        (''DEBUG'', debug p)] template"
  by (simp add: render_def hole_def)

lemma render_Nil: "render p [] = []"
  by (simp add: render_def replace_all_def)

lemma render_char:
  assumes "list_all plain
      [orchestratorPath p, hubspotPath p, sharepointPath p, asanaPath p,
       hubspotUrl p, sharepointUrl p, asanaUrl p, debug p]"
    and "\<not> prefix ''{{'' (c # cs)"
  shows "render p (c # cs) = c # render p cs"
  unfolding render_passes
proof (rule passes_char[OF _ assms(2)])
  from assms(1) escape_backslashes_plain
  show "\<forall>(a, r) \<in> set
      [(''ORCHESTRATOR_PATH'', escape_backslashes (orchestratorPath p)),
        (''HUBSPOT_PROJECT_PATH'', escape_backslashes (hubspotPath p)),
        (''SHAREPOINT_PROJECT_PATH'', escape_backslashes (sharepointPath p)),
        (''ASANA_PROJECT_PATH'', escape_backslashes (asanaPath p)),
        (''HUBSPOT_MCP_URL'', hubspotUrl p),
        (''SHAREPOINT_MCP_URL'', sharepointUrl p),
        (''ASANA_MCP_URL'', asanaUrl p),
        (''DEBUG'', debug p)]. CHR ''$'' \<notin> set r"
    by (simp add: plain_def)
qed

lemma render_hole:
  assumes "list_all plain
      [orchestratorPath p, hubspotPath p, sharepointPath p, asanaPath p,
       hubspotUrl p, sharepointUrl p, asanaUrl p, debug p]"
    and "brace_free b"
  shows "render p (hole b @ rest)
         = (case map_of
              [(''ORCHESTRATOR_PATH'', escape_backslashes (orchestratorPath p)),
               (''HUBSPOT_PROJECT_PATH'', escape_backslashes (hubspotPath p)),
               (''SHAREPOINT_PROJECT_PATH'', escape_backslashes (sharepointPath p)),
               (''ASANA_PROJECT_PATH'', escape_backslashes (asanaPath p)),
               (''HUBSPOT_MCP_URL'', hubspotUrl p),
               (''SHAREPOINT_MCP_URL'', sharepointUrl p),
               (''ASANA_MCP_URL'', asanaUrl p),
               (''DEBUG'', debug p)] b of None \<Rightarrow> hole b | Some v \<Rightarrow> v)
           @ render p rest"
  unfolding render_passes
proof (rule passes_hole[OF _ assms(2)])
  from assms(1) escape_backslashes_plain
  show "\<forall>(a, r) \<in> set
      [(''ORCHESTRATOR_PATH'', escape_backslashes (orchestratorPath p)),
        (''HUBSPOT_PROJECT_PATH'', escape_backslashes (hubspotPath p)),
        (''SHAREPOINT_PROJECT_PATH'', escape_backslashes (sharepointPath p)),
        (''ASANA_PROJECT_PATH'', escape_backslashes (asanaPath p)),
        (''HUBSPOT_MCP_URL'', hubspotUrl p),
        (''SHAREPOINT_MCP_URL'', sharepointUrl p),
        (''ASANA_MCP_URL'', asanaUrl p),
        (''DEBUG'', debug p)]. brace_free a \<and> plain r"
    by (simp add: brace_free_def)
qed

lemma render_placeholder:
  assumes "list_all plain
      [orchestratorPath p, hubspotPath p, sharepointPath p, asanaPath p,
       hubspotUrl p, sharepointUrl p, asanaUrl p, debug p]"
    and "tok \<in> set placeholders"
  shows "render p (tok @ rest) = render p tok @ render p rest"
proof -
  from placeholder_hole[OF assms(2)] obtain b where b: "tok = hole b" "brace_free b" by blast
  from render_hole[OF assms(1) b(2), of "[]"] render_hole[OF assms(1) b(2), of rest]
  show ?thesis by (simp add: b(1) render_Nil)
qed

lemma placeholder_within:
  assumes "t \<in> set placeholders" "tok \<in> set placeholders"
    and "pre \<noteq> []" "pre @ tok @ post = t @ rest"
  shows "\<exists>pre'. pre = t @ pre'"
proof (rule ccontr)
  assume contra: "\<not> (\<exists>pre'. pre = t @ pre')"
  from placeholder_hole[OF assms(1)] obtain n where n: "t = hole n" "brace_free n" by blast
  from placeholder_hole[OF assms(2)] obtain m where m: "tok = hole m" by blast
  from assms(4) have "(\<exists>us. pre = t @ us \<and> us @ tok @ post = rest)
      \<or> (\<exists>us. pre @ us = t \<and> tok @ post = us @ rest)"
    unfolding append_eq_append_conv2 by blast
  with contra obtain w where "pre @ w = t" "tok @ post = w @ rest" by blast
  with contra have w: "t = pre @ w" "w \<noteq> []" "w @ rest = tok @ post" by auto
  from assms(3) obtain c cs where pre: "pre = c # cs" by (cases pre) auto
  with w(1) n(1) have "cs @ w = CHR ''{'' # n @ ''}}''" by (auto simp: hole_def)
  then have "suffix w (CHR ''{'' # n @ ''}}'')" by (metis suffixI)
  from hole_tail_closed[OF n(2) this w(2)] have "\<not> prefix ''{{'' (w @ rest)" .
  moreover have "prefix ''{{'' (tok @ post)" by (simp add: m hole_def)
  ultimately show False using w(3) by simp
qed

lemma render_split:
  assumes plain: "list_all plain
      [orchestratorPath p, hubspotPath p, sharepointPath p, asanaPath p,
       hubspotUrl p, sharepointUrl p, asanaUrl p, debug p]"
    and tok: "tok \<in> set placeholders"
  shows "well_formed (pre @ tok @ post)
         \<Longrightarrow> render p (pre @ tok @ post) = render p pre @ render p tok @ render p post"
proof (induction pre rule: length_induct)
  case (1 pre)
  show ?case
  proof (cases pre)
    case Nil
    then show ?thesis by (simp add: render_Nil render_placeholder[OF plain tok])
  next
    case (Cons c cs)
    from 1(2) show ?thesis
    proof (cases rule: well_formed_cases)
      case empty
      with Cons show ?thesis by simp
    next
      case (placeholder t rest)
      from placeholder_within[OF placeholder(1) tok _ placeholder(2)] Cons
      obtain pre' where pre': "pre = t @ pre'" by auto
      with placeholder(2) have rest: "rest = pre' @ tok @ post" by simp
      from placeholder_hole[OF placeholder(1)] have "t \<noteq> []" by (auto simp: hole_def)
      with pre' have "length pre' < length pre" by simp
      with 1(1) placeholder(3) rest
      have "render p (pre' @ tok @ post) = render p pre' @ render p tok @ render p post"
        by blast
      with render_placeholder[OF plain placeholder(1), of "pre' @ tok @ post"]
        render_placeholder[OF plain placeholder(1), of pre']
      show ?thesis by (simp add: pre')
    next
      case (char d ds)
      with Cons have ds: "d = c" "ds = cs @ tok @ post" by simp_all
      from char(2) have head: "\<not> prefix ''{{'' (c # cs)"
        using Cons by (cases cs) auto
      from 1(1) char(3) ds(2) Cons
      have "render p (cs @ tok @ post) = render p cs @ render p tok @ render p post"
        by simp
      with render_char[OF plain, of c "cs @ tok @ post"] render_char[OF plain head] char(2) Cons
      show ?thesis by simp
    qed
  qed
qed


lemma render_values:
  assumes "list_all plain
      [orchestratorPath p, hubspotPath p, sharepointPath p, asanaPath p,
       hubspotUrl p, sharepointUrl p, asanaUrl p, debug p]"
  shows "render p ''{{HUBSPOT_PROJECT_PATH}}'' = escape_backslashes (hubspotPath p)"
    and "render p ''{{SHAREPOINT_PROJECT_PATH}}'' = escape_backslashes (sharepointPath p)"
    and "render p ''{{ASANA_PROJECT_PATH}}'' = escape_backslashes (asanaPath p)"
    and "render p ''{{HUBSPOT_MCP_URL}}'' = hubspotUrl p"
    and "render p ''{{SHAREPOINT_MCP_URL}}'' = sharepointUrl p"
    and "render p ''{{ASANA_MCP_URL}}'' = asanaUrl p"
    and "render p ''{{DEBUG}}'' = debug p"
  using render_hole[OF assms, of "''HUBSPOT_PROJECT_PATH''" "[]"]
    render_hole[OF assms, of "''SHAREPOINT_PROJECT_PATH''" "[]"]
    render_hole[OF assms, of "''ASANA_PROJECT_PATH''" "[]"]
    render_hole[OF assms, of "''HUBSPOT_MCP_URL''" "[]"]
    render_hole[OF assms, of "''SHAREPOINT_MCP_URL''" "[]"]
    render_hole[OF assms, of "''ASANA_MCP_URL''" "[]"]
    render_hole[OF assms, of "''DEBUG''" "[]"]
  by (simp_all add: hole_def brace_free_def render_Nil)

lemma render_at:
  assumes "list_all plain
      [orchestratorPath p, hubspotPath p, sharepointPath p, asanaPath p,
       hubspotUrl p, sharepointUrl p, asanaUrl p, debug p]"
    and "tok \<in> set placeholders" "render p tok = v" "well_formed (pre @ tok @ post)"
  shows "render p (pre @ tok @ post) = render p pre @ v @ render p post"
  using render_split[OF assms(1,2,4)] assms(3) by simp

text \<open>
  C6, as the script has it. Resolution is a total function (it never fails), and a key
  that is absent from the parameter source resolves to its built-in default: the home
  directory, the project directory under the installation directory, the three
  production URLs, and \<^verbatim>\<open>false\<close>. There is no placeholder for \<^verbatim>\<open>INSTALL_DIR\<close>, which only
  enters the default project paths. In a well-formed template and with plain parameter
  values, the text that replaces the placeholder of an absent key is the default itself
  for a URL and for \<^verbatim>\<open>DEBUG\<close>, and the default with every backslash doubled for a
  project path; the text on either side is rendered as it is alone.
\<close>

theorem absent_key_resolves_to_default:
  "(let p = resolve P h env in
      (env ''INSTALL_DIR'' = None \<longrightarrow> installDir p = homedir h)
    \<and> (env ''HUBSPOT_PROJECT_PATH'' = None \<longrightarrow>
         hubspotPath p = path_join P (installDir p) ''hubspot-mcp-railway'')
    \<and> (env ''SHAREPOINT_PROJECT_PATH'' = None \<longrightarrow>
         sharepointPath p = path_join P (installDir p) ''sharepoint-mcp-railway'')
    \<and> (env ''ASANA_PROJECT_PATH'' = None \<longrightarrow>
         asanaPath p = path_join P (installDir p) ''asana-mcp-railway'')
    \<and> (env ''HUBSPOT_MCP_URL'' = None \<longrightarrow>
         hubspotUrl p = ''https://hubspot-mcp-railway-production-386b.up.railway.app/mcp'')
    \<and> (env ''SHAREPOINT_MCP_URL'' = None \<longrightarrow>
         sharepointUrl p = ''https://sharepoint-mcp-railway-production.up.railway.app/mcp'')
    \<and> (env ''ASANA_MCP_URL'' = None \<longrightarrow>
         asanaUrl p = ''https://asana-mcp-railway-production.up.railway.app/sse'')
    \<and> (env ''DEBUG'' = None \<longrightarrow> debug p = ''false'')
    \<and> render p ''{{INSTALL_DIR}}'' = ''{{INSTALL_DIR}}''
    \<and> (list_all plain
          [orchestratorPath p, hubspotPath p, sharepointPath p, asanaPath p,
           hubspotUrl p, sharepointUrl p, asanaUrl p, debug p] \<longrightarrow>
         (env ''HUBSPOT_PROJECT_PATH'' = None
            \<and> well_formed (pre @ ''{{HUBSPOT_PROJECT_PATH}}'' @ post) \<longrightarrow>
          render p (pre @ ''{{HUBSPOT_PROJECT_PATH}}'' @ post)
            = render p pre
              @ escape_backslashes (path_join P (installDir p) ''hubspot-mcp-railway'')
              @ render p post)
       \<and> (env ''SHAREPOINT_PROJECT_PATH'' = None
            \<and> well_formed (pre @ ''{{SHAREPOINT_PROJECT_PATH}}'' @ post) \<longrightarrow>
          render p (pre @ ''{{SHAREPOINT_PROJECT_PATH}}'' @ post)
            = render p pre
              @ escape_backslashes (path_join P (installDir p) ''sharepoint-mcp-railway'')
              @ render p post)
       \<and> (env ''ASANA_PROJECT_PATH'' = None
            \<and> well_formed (pre @ ''{{ASANA_PROJECT_PATH}}'' @ post) \<longrightarrow>
          render p (pre @ ''{{ASANA_PROJECT_PATH}}'' @ post)
            = render p pre
              @ escape_backslashes (path_join P (installDir p) ''asana-mcp-railway'')
              @ render p post)
       \<and> (env ''HUBSPOT_MCP_URL'' = None
            \<and> well_formed (pre @ ''{{HUBSPOT_MCP_URL}}'' @ post) \<longrightarrow>
          render p (pre @ ''{{HUBSPOT_MCP_URL}}'' @ post)
            = render p pre
              @ ''https://hubspot-mcp-railway-production-386b.up.railway.app/mcp''
              @ render p post)
       \<and> (env ''SHAREPOINT_MCP_URL'' = None
            \<and> well_formed (pre @ ''{{SHAREPOINT_MCP_URL}}'' @ post) \<longrightarrow>
          render p (pre @ ''{{SHAREPOINT_MCP_URL}}'' @ post)
            = render p pre
              @ ''https://sharepoint-mcp-railway-production.up.railway.app/mcp''
              @ render p post)
       \<and> (env ''ASANA_MCP_URL'' = None
            \<and> well_formed (pre @ ''{{ASANA_MCP_URL}}'' @ post) \<longrightarrow>
          render p (pre @ ''{{ASANA_MCP_URL}}'' @ post)
            = render p pre
              @ ''https://asana-mcp-railway-production.up.railway.app/sse''
              @ render p post)
       \<and> (env ''DEBUG'' = None \<and> well_formed (pre @ ''{{DEBUG}}'' @ post) \<longrightarrow>
          render p (pre @ ''{{DEBUG}}'' @ post) = render p pre @ ''false'' @ render p post)))"
proof -
  define p where "p = resolve P h env"
  have dir: "env ''INSTALL_DIR'' = None \<longrightarrow> installDir p = homedir h"
    and hubspot: "env ''HUBSPOT_PROJECT_PATH'' = None \<longrightarrow>
         hubspotPath p = path_join P (installDir p) ''hubspot-mcp-railway''"
    and sharepoint: "env ''SHAREPOINT_PROJECT_PATH'' = None \<longrightarrow>
         sharepointPath p = path_join P (installDir p) ''sharepoint-mcp-railway''"
    and asana: "env ''ASANA_PROJECT_PATH'' = None \<longrightarrow>
         asanaPath p = path_join P (installDir p) ''asana-mcp-railway''"
    and hubspot_url: "env ''HUBSPOT_MCP_URL'' = None \<longrightarrow>
         hubspotUrl p = ''https://hubspot-mcp-railway-production-386b.up.railway.app/mcp''"
    and sharepoint_url: "env ''SHAREPOINT_MCP_URL'' = None \<longrightarrow>
         sharepointUrl p = ''https://sharepoint-mcp-railway-production.up.railway.app/mcp''"
    and asana_url: "env ''ASANA_MCP_URL'' = None \<longrightarrow>
         asanaUrl p = ''https://asana-mcp-railway-production.up.railway.app/sse''"
    and debug: "env ''DEBUG'' = None \<longrightarrow> debug p = ''false''"
    by (simp_all add: p_def resolve_def Let_def or_default_absent)
  have kept: "render p ''{{INSTALL_DIR}}'' = ''{{INSTALL_DIR}}''"
    by (rule render_absent) (simp add: placeholders_def)
  have filled: "render p (pre @ tok @ post) = render p pre @ v @ render p post"
    if "list_all plain
          [orchestratorPath p, hubspotPath p, sharepointPath p, asanaPath p,
           hubspotUrl p, sharepointUrl p, asanaUrl p, debug p]"
      and "tok \<in> set placeholders" "render p tok = v" "well_formed (pre @ tok @ post)"
    for tok v
    using that by (rule render_at)
  have members: "''{{HUBSPOT_PROJECT_PATH}}'' \<in> set placeholders"
    "''{{SHAREPOINT_PROJECT_PATH}}'' \<in> set placeholders"
    "''{{ASANA_PROJECT_PATH}}'' \<in> set placeholders"
    "''{{HUBSPOT_MCP_URL}}'' \<in> set placeholders"
    "''{{SHAREPOINT_MCP_URL}}'' \<in> set placeholders"
    "''{{ASANA_MCP_URL}}'' \<in> set placeholders"
    "''{{DEBUG}}'' \<in> set placeholders"
    by (simp_all add: placeholders_def)
  show ?thesis
    unfolding Let_def p_def[symmetric]
    using dir hubspot sharepoint asana hubspot_url sharepoint_url asana_url debug kept
      filled[OF _ members(1)] filled[OF _ members(2)] filled[OF _ members(3)]
      filled[OF _ members(4)] filled[OF _ members(5)] filled[OF _ members(6)]
      filled[OF _ members(7)] render_values[of p]
    by metis
qed


theorem absent_key_resolves_to_default_witness:
  \<open>parse_env ''HUBSPOT_MCP_URL=http://localhost/mcp'' ''DEBUG'' = None
   \<and> parse_env ''HUBSPOT_MCP_URL=http://localhost/mcp'' ''HUBSPOT_PROJECT_PATH'' = None
   \<and> parse_env ''HUBSPOT_MCP_URL=http://localhost/mcp'' ''INSTALL_DIR'' = None
   \<and> list_all plain
        (map (\<lambda>field. field (resolve node_posix linux_host
                (parse_env ''HUBSPOT_MCP_URL=http://localhost/mcp'')))
          [orchestratorPath, hubspotPath, sharepointPath, asanaPath,
           hubspotUrl, sharepointUrl, asanaUrl, debug])
   \<and> well_formed template_text
   \<and> render (resolve node_posix linux_host (parse_env ''HUBSPOT_MCP_URL=http://localhost/mcp''))
        template_text
       = ''{"mcpServers":{"bar":{"command":"false"}}}''
   \<and> well_formed ''["{{HUBSPOT_PROJECT_PATH}}"]''
   \<and> render (resolve node_posix linux_host (parse_env ''HUBSPOT_MCP_URL=http://localhost/mcp''))
        ''["{{HUBSPOT_PROJECT_PATH}}"]''
       = ''["/h/hubspot-mcp-railway"]''
   \<and> installDir (resolve node_posix linux_host
        (parse_env ''HUBSPOT_MCP_URL=http://localhost/mcp'')) = ''/h''
   \<and> hubspotUrl (resolve node_posix linux_host
        (parse_env ''HUBSPOT_MCP_URL=http://localhost/mcp'')) = ''http://localhost/mcp''
   \<and> list_all plain
        (map (\<lambda>field. field (resolve node_posix (linux_host\<lparr>homedir := ''/h'' @ [CHR 0x5C] @ ''u''\<rparr>)
                (parse_env ''HUBSPOT_MCP_URL=http://localhost/mcp'')))
          [orchestratorPath, hubspotPath, sharepointPath, asanaPath,
           hubspotUrl, sharepointUrl, asanaUrl, debug])
   \<and> hubspotPath (resolve node_posix (linux_host\<lparr>homedir := ''/h'' @ [CHR 0x5C] @ ''u''\<rparr>)
        (parse_env ''HUBSPOT_MCP_URL=http://localhost/mcp''))
       = ''/h'' @ [CHR 0x5C] @ ''u/hubspot-mcp-railway''
   \<and> render (resolve node_posix (linux_host\<lparr>homedir := ''/h'' @ [CHR 0x5C] @ ''u''\<rparr>)
          (parse_env ''HUBSPOT_MCP_URL=http://localhost/mcp''))
        ''["{{HUBSPOT_PROJECT_PATH}}"]''
       = ''["/h'' @ [CHR 0x5C, CHR 0x5C] @ ''u/hubspot-mcp-railway"]''\<close>
proof -
  define given where "given = parse_env ''HUBSPOT_MCP_URL=http://localhost/mcp''"
  define slashed where "slashed = linux_host\<lparr>homedir := ''/h'' @ [CHR 0x5C] @ ''u''\<rparr>"
  have absent: "given ''DEBUG'' = None" "given ''HUBSPOT_PROJECT_PATH'' = None"
    "given ''INSTALL_DIR'' = None"
    by (simp_all add: given_def string_defs env_defs)
  have url: "hubspotUrl (resolve node_posix linux_host given) = ''http://localhost/mcp''"
    by (simp add: given_def string_defs env_defs resolve_def Let_def)
  have resolved: "list_all plain
      [orchestratorPath (resolve node_posix h given), hubspotPath (resolve node_posix h given),
       sharepointPath (resolve node_posix h given), asanaPath (resolve node_posix h given),
       hubspotUrl (resolve node_posix h given), sharepointUrl (resolve node_posix h given),
       asanaUrl (resolve node_posix h given), debug (resolve node_posix h given)]"
    if "h = linux_host \<or> h = slashed" for h
    using that
    by (auto simp: given_def slashed_def string_defs env_defs plain_def resolve_def Let_def
        node_defs linux_host_def)
  have wf: "well_formed template_text" \<open>well_formed ''["{{HUBSPOT_PROJECT_PATH}}"]''\<close>
    by (simp_all add: template_text_def placeholders_def)
  have sides: \<open>render p ''{"mcpServers":{"bar":{"command":"'' = ''{"mcpServers":{"bar":{"command":"''\<close>
    \<open>render p ''"}}}'' = ''"}}}''\<close> \<open>render p ''["'' = ''["''\<close> \<open>render p ''"]'' = ''"]''\<close>
    for p
    by (rule render_absent, simp add: placeholders_def)+
  have joined: "path_join node_posix d rel = d @ ''/'' @ rel" for d rel
    by (simp add: node_defs)
  have doubled: "escape_backslashes (''/h'' @ [CHR 0x5C] @ ''u/hubspot-mcp-railway'')
      = ''/h'' @ [CHR 0x5C, CHR 0x5C] @ ''u/hubspot-mcp-railway''"
    "escape_backslashes ''/h/hubspot-mcp-railway'' = ''/h/hubspot-mcp-railway''"
    by (simp_all add: string_defs)
  from absent_key_resolves_to_default[where P = node_posix and h = linux_host and env = given
      and pre = \<open>''{"mcpServers":{"bar":{"command":"''\<close> and post = \<open>''"}}}''\<close>]
    absent resolved[of linux_host] wf(1)
  have first: \<open>render (resolve node_posix linux_host given) template_text
      = ''{"mcpServers":{"bar":{"command":"false"}}}''\<close>
    "installDir (resolve node_posix linux_host given) = ''/h''"
    by (simp_all add: Let_def template_text_def sides linux_host_def)
  from absent_key_resolves_to_default[where P = node_posix and h = linux_host and env = given
      and pre = \<open>''["''\<close> and post = \<open>''"]''\<close>]
    absent resolved[of linux_host] wf(2)
  have second: \<open>render (resolve node_posix linux_host given) ''["{{HUBSPOT_PROJECT_PATH}}"]''
      = ''["/h/hubspot-mcp-railway"]''\<close>
    using doubled(2) by (simp add: Let_def sides joined linux_host_def)
  from absent_key_resolves_to_default[where P = node_posix and h = slashed and env = given
      and pre = \<open>''["''\<close> and post = \<open>''"]''\<close>]
    absent resolved[of slashed] wf(2)
  have third: "hubspotPath (resolve node_posix slashed given)
      = ''/h'' @ [CHR 0x5C] @ ''u/hubspot-mcp-railway''"
    \<open>render (resolve node_posix slashed given) ''["{{HUBSPOT_PROJECT_PATH}}"]''
      = ''["/h'' @ [CHR 0x5C, CHR 0x5C] @ ''u/hubspot-mcp-railway"]''\<close>
    using doubled(1) by (simp_all add: Let_def sides joined slashed_def linux_host_def)
  from absent url resolved[of linux_host] resolved[of slashed] wf first second third
  show ?thesis
    unfolding given_def[symmetric] slashed_def[symmetric] by simp
qed

text \<open>
  C6, as claimed (an absent key resolves to the empty string, so the substituted text is
  empty), fails on the empty parameter source: \<^verbatim>\<open>{{DEBUG}}\<close> is rendered as
  \<^verbatim>\<open>false\<close>.
\<close>

theorem absent_key_counterexample:
  "parse_env [] ''DEBUG'' = None
   \<and> debug (resolve node_posix linux_host (parse_env [])) = ''false''
   \<and> render (resolve node_posix linux_host (parse_env [])) ''{{DEBUG}}'' = ''false''
   \<and> render (resolve node_posix linux_host (parse_env [])) ''{{DEBUG}}'' \<noteq> []"
  by (simp add: string_defs env_defs run_defs node_defs example_defs)

end
